theory Spec2Isabelle
  imports Complex_Main "HOL-Library.Log_Nat" "HOL-Library.AList" "HOL-Library.Sublist"
begin

section \<open>Characters and strings\<close>

text \<open>
  A Python \<open>str\<close> is modelled as a \<open>string\<close>: a list of characters whose code points are
  below 256. On that range the classes of the \<open>re\<close> module are the following:
  \<open>\d\<close> is the ten ASCII digits, \<open>\s\<close> is the code points 9 to 13, 28 to 32, 133 and 160,
  and \<open>.\<close> is every character but the line feed.
\<close>

definition code :: "char \<Rightarrow> nat" where
  "code c = of_char c"

definition is_digit :: "char \<Rightarrow> bool" where
  "is_digit c = (48 \<le> code c \<and> code c \<le> 57)"

definition is_space :: "char \<Rightarrow> bool" where
  "is_space c = ((9 \<le> code c \<and> code c \<le> 13) \<or> (28 \<le> code c \<and> code c \<le> 32)
     \<or> code c = 133 \<or> code c = 160)"

definition lower_char :: "char \<Rightarrow> char" where
  "lower_char c =
     (if (65 \<le> code c \<and> code c \<le> 90) \<or> (192 \<le> code c \<and> code c \<le> 214)
         \<or> (216 \<le> code c \<and> code c \<le> 222)
      then char_of (code c + 32) else c)"

definition lower :: "string \<Rightarrow> string" where
  "lower s = map lower_char s"

section \<open>The line extractor: the compiled pattern and \<open>search\<close>\<close>

text \<open>
  The pattern of \<open>parse_file\<close> uses literals, the classes \<open>\d\<close>, \<open>\s\<close>, \<open>.\<close> and \<open>[+-]\<close>,
  the greedy quantifiers \<open>+\<close> and \<open>?\<close> on a single class, and three groups. It is kept as
  a list of items, and matched the way the backtracking engine of \<open>re\<close> does: a greedy
  quantifier takes the longest run first and gives characters back one at a time.
  The source pattern, in one piece:
  \<^verbatim>\<open>ptp4l\[\d+\]: ptp4l\[\d+.\d+\]: master offset\s+([+-]?\d+)\s+s2 freq\s+([+-]?\d+)\s+path delay\s+(\d+)\<close>
\<close>

datatype cclass = Lit char | Digit | Space | Dot | OneOf "char list"

datatype item = Single cclass | Plus cclass | Opt cclass | GOpen | GClose

fun in_class :: "cclass \<Rightarrow> char \<Rightarrow> bool" where
  "in_class (Lit a) c = (c = a)"
| "in_class Digit c = is_digit c"
| "in_class Space c = is_space c"
| "in_class Dot c = (code c \<noteq> 10)"
| "in_class (OneOf cs) c = (c \<in> set cs)"

fun first_some :: "('a \<Rightarrow> 'b option) \<Rightarrow> 'a list \<Rightarrow> 'b option" where
  "first_some f [] = None"
| "first_some f (x # xs) = (case f x of Some y \<Rightarrow> Some y | None \<Rightarrow> first_some f xs)"

text \<open>
  \<open>match_here p s i\<close> matches the items \<open>p\<close> at the front of \<open>s\<close>, which starts at index
  \<open>i\<close> of the line; it returns the indices at which the groups open and close, in the
  order of the pattern.
\<close>

fun match_here :: "item list \<Rightarrow> string \<Rightarrow> nat \<Rightarrow> nat list option" where
  "match_here [] s i = Some []"
| "match_here (Single c # p) s i =
     (case s of [] \<Rightarrow> None
      | x # xs \<Rightarrow> if in_class c x then match_here p xs (Suc i) else None)"
| "match_here (Opt c # p) s i =
     (case s of [] \<Rightarrow> match_here p s i
      | x # xs \<Rightarrow>
          if in_class c x
          then (case match_here p xs (Suc i) of Some r \<Rightarrow> Some r | None \<Rightarrow> match_here p s i)
          else match_here p s i)"
| "match_here (Plus c # p) s i =
     first_some (\<lambda>k. match_here p (drop k s) (i + k))
       (rev [1 ..< Suc (length (takeWhile (in_class c) s))])"
| "match_here (GOpen # p) s i = map_option (Cons i) (match_here p s i)"
| "match_here (GClose # p) s i = map_option (Cons i) (match_here p s i)"

definition lits :: "string \<Rightarrow> item list" where
  "lits s = map (\<lambda>c. Single (Lit c)) s"

definition signed_digits :: "item list" where
  "signed_digits = [GOpen, Opt (OneOf ''+-''), Plus Digit, GClose]"

definition re_pattern :: "item list" where
  "re_pattern =
     lits ''ptp4l['' @ [Plus Digit] @ lits '']: ptp4l['' @ [Plus Digit, Single Dot, Plus Digit]
     @ lits '']: master offset'' @ [Plus Space] @ signed_digits
     @ [Plus Space] @ lits ''s2 freq'' @ [Plus Space] @ signed_digits
     @ [Plus Space] @ lits ''path delay'' @ [Plus Space] @ [GOpen, Plus Digit, GClose]"

definition slice :: "string \<Rightarrow> nat \<Rightarrow> nat \<Rightarrow> string" where
  "slice s a b = take (b - a) (drop a s)"

text \<open>
  \<open>search\<close> tries every start index from the left and returns the three groups of the
  first match: the offset, the frequency and the path delay, as text.
\<close>

definition search :: "string \<Rightarrow> (string \<times> string \<times> string) option" where
  "search line =
     (case first_some (\<lambda>k. match_here re_pattern (drop k line) k) [0 ..< Suc (length line)] of
        Some [a1, b1, a2, b2, a3, b3] \<Rightarrow> Some (slice line a1 b1, slice line a2 b2, slice line a3 b3)
      | _ \<Rightarrow> None)"

section \<open>Floating-point values and \<open>float\<close> on a capture\<close>

text \<open>
  A binary64 value is a finite number, an infinity or a NaN. Every finite double is a real
  number, so \<open>Finite\<close> carries a real; \<open>Finite 0\<close> is the positive zero and \<open>NegZero\<close> the
  negative one, which compares equal to it and prints with a sign.
\<close>

datatype pyfloat = Finite real | NegZero | PInf | NInf | NaN

text \<open>
  \<open>float\<close> on a decimal integer literal gives the nearest double, ties to even: the 53
  leading bits of the magnitude are kept, and a magnitude that rounds to \<open>2 ^ 1024\<close> or
  more is an infinity.
\<close>

definition round_binary64 :: "nat \<Rightarrow> nat option" where
  "round_binary64 m =
     (if m < 2 ^ 53 then Some m
      else let e = floorlog 2 m - 53;
               q = m div 2 ^ e;
               r = m mod 2 ^ e;
               h = 2 ^ (e - 1);
               q' = (if h < r \<or> (r = h \<and> odd q) then q + 1 else q)
           in if 2 ^ 1024 \<le> q' * 2 ^ e then None else Some (q' * 2 ^ e))"

definition digit_val :: "char \<Rightarrow> nat" where
  "digit_val c = code c - 48"

definition nat_of_digits :: "string \<Rightarrow> nat" where
  "nat_of_digits ds = foldl (\<lambda>n c. 10 * n + digit_val c) 0 ds"

definition float_of_magnitude :: "bool \<Rightarrow> string \<Rightarrow> pyfloat" where
  "float_of_magnitude neg ds =
     (case round_binary64 (nat_of_digits ds) of
        None \<Rightarrow> (if neg then NInf else PInf)
      | Some v \<Rightarrow> (if neg then (if v = 0 then NegZero else Finite (- real v)) else Finite (real v)))"

text \<open>
  \<open>py_float\<close> is \<open>float\<close> on the strings the groups of the pattern can hold: an optional
  sign and one or more digits (lemma \<open>search_captures_numeric\<close>). Other strings are
  outside its domain.
\<close>

fun py_float :: "string \<Rightarrow> pyfloat" where
  "py_float [] = float_of_magnitude False []"
| "py_float (c # cs) =
     (if c = CHR ''-'' then float_of_magnitude True cs
      else if c = CHR ''+'' then float_of_magnitude False cs
      else float_of_magnitude False (c # cs))"

section \<open>Exceptions, effects and the numeric libraries\<close>

text \<open>
  The exceptions of a run, each with its message. \<open>UnicodeDecodeError\<close> is the subclass of
  \<open>ValueError\<close> that reading a file can raise; it is kept apart from the \<open>ValueError\<close>s that
  NumPy and Matplotlib raise.
\<close>

datatype error =
    OSError string
  | UnicodeDecodeError string
  | TypeError string
  | ValueError string
  | KeyError string

text \<open>\<open>error_message\<close> is \<open>str(err)\<close>; a \<open>KeyError\<close> shows its key quoted.\<close>

fun error_message :: "error \<Rightarrow> string" where
  "error_message (OSError m) = m"
| "error_message (UnicodeDecodeError m) = m"
| "error_message (TypeError m) = m"
| "error_message (ValueError m) = m"
| "error_message (KeyError k) = [CHR 0x27] @ k @ [CHR 0x27]"

text \<open>
  What a run does to the outside: a \<open>print\<close> call with its text, \<open>os.makedirs\<close> with its
  directory, and a saved figure with its file name, title, plotted data and the two limits
  given to \<open>ylim\<close>.
\<close>

datatype effect =
    Print string
  | MakeDirs string
  | SavePlot string string "pyfloat list" pyfloat pyfloat

text \<open>
  A computation yields the effects it performed and either the exception that ended it
  or its value.
\<close>

type_synonym 'a comp = "effect list \<times> (error + 'a)"

definition ret :: "'a \<Rightarrow> 'a comp" where
  "ret x = ([], Inr x)"

definition raise :: "error \<Rightarrow> 'a comp" where
  "raise e = ([], Inl e)"

definition emit :: "effect \<Rightarrow> unit comp" where
  "emit e = ([e], Inr ())"

definition bind_c :: "'a comp \<Rightarrow> ('a \<Rightarrow> 'b comp) \<Rightarrow> 'b comp" where
  "bind_c m f =
     (case m of
        (out, Inl e) \<Rightarrow> (out, Inl e)
      | (out, Inr x) \<Rightarrow> (case f x of (out', r) \<Rightarrow> (out @ out', r)))"

definition then_c :: "unit comp \<Rightarrow> 'b comp \<Rightarrow> 'b comp" where
  "then_c m k = bind_c m (\<lambda>_. k)"

text \<open>
  The routines of NumPy and SciPy whose results are floating-point computations, and the
  \<open>.Nf\<close> formatting of a float, are parameters of the model: \<open>np_mean\<close> and \<open>np_std\<close> stand
  for \<open>np.mean\<close> and \<open>np.std\<close> on a non-empty array, \<open>shapiro\<close> and \<open>mannwhitneyu\<close> for the
  two tests of \<open>scipy.stats\<close> (statistic and p-value), \<open>fmt n\<close> for the format \<open>.nf\<close>.
\<close>

record lib =
  np_mean :: "pyfloat list \<Rightarrow> pyfloat"
  np_std :: "pyfloat list \<Rightarrow> pyfloat"
  shapiro :: "pyfloat list \<Rightarrow> pyfloat \<times> pyfloat"
  mannwhitneyu :: "pyfloat list \<Rightarrow> pyfloat list \<Rightarrow> pyfloat \<times> pyfloat"
  fmt :: "nat \<Rightarrow> pyfloat \<Rightarrow> string"

text \<open>
  Comparison of floats: every comparison with a NaN is false, and the negative zero
  compares as zero.
\<close>

fun fless :: "pyfloat \<Rightarrow> pyfloat \<Rightarrow> bool" where
  "fless NaN _ = False"
| "fless _ NaN = False"
| "fless (Finite a) (Finite b) = (a < b)"
| "fless (Finite a) NegZero = (a < 0)"
| "fless NegZero (Finite b) = (0 < b)"
| "fless NegZero NegZero = False"
| "fless (Finite a) PInf = True"
| "fless NegZero PInf = True"
| "fless (Finite a) NInf = False"
| "fless NegZero NInf = False"
| "fless PInf _ = False"
| "fless NInf NInf = False"
| "fless NInf _ = True"

fun is_finite :: "pyfloat \<Rightarrow> bool" where
  "is_finite (Finite a) = True"
| "is_finite NegZero = True"
| "is_finite _ = False"

definition fgreater :: "pyfloat \<Rightarrow> pyfloat \<Rightarrow> bool" where
  "fgreater a b = fless b a"

text \<open>
  \<open>np.max\<close> and \<open>np.min\<close> are exact: they raise \<open>ValueError\<close> on an empty array and
  return a NaN when the array holds one. Each step keeps the value it has unless the next
  one is strictly beyond it, as the scalar loop of NumPy does; this only shows on an array
  that holds zeros of both signs.
\<close>

definition fmax :: "pyfloat \<Rightarrow> pyfloat \<Rightarrow> pyfloat" where
  "fmax a b = (if a = NaN \<or> b = NaN then NaN else if fless a b then b else a)"

definition fmin :: "pyfloat \<Rightarrow> pyfloat \<Rightarrow> pyfloat" where
  "fmin a b = (if a = NaN \<or> b = NaN then NaN else if fless b a then b else a)"

definition np_max :: "pyfloat list \<Rightarrow> pyfloat comp" where
  "np_max data =
     (case data of
        [] \<Rightarrow> raise (ValueError ''zero-size array to reduction operation maximum which has no identity'')
      | x # xs \<Rightarrow> ret (foldl fmax x xs))"

definition np_min :: "pyfloat list \<Rightarrow> pyfloat comp" where
  "np_min data =
     (case data of
        [] \<Rightarrow> raise (ValueError ''zero-size array to reduction operation minimum which has no identity'')
      | x # xs \<Rightarrow> ret (foldl fmin x xs))"

text \<open>The literal \<open>0.05\<close> is the double nearest to one twentieth.\<close>

definition float_0_05 :: pyfloat where
  "float_0_05 = Finite (3602879701896397 / 2 ^ 56)"

definition tab :: string where
  "tab = [CHR 0x09]"

definition newline :: string where
  "newline = [CHR 0x0A]"

section \<open>Paths\<close>

text \<open>\<open>os.path.join\<close> and \<open>os.path.dirname\<close> of \<open>posixpath\<close>, on two components.\<close>

definition os_path_join :: "string \<Rightarrow> string \<Rightarrow> string" where
  "os_path_join a b =
     (if b \<noteq> [] \<and> hd b = CHR ''/'' then b
      else if a = [] \<or> last a = CHR ''/'' then a @ b
      else a @ ''/'' @ b)"

definition os_path_dirname :: "string \<Rightarrow> string" where
  "os_path_dirname p =
     (let head = rev (dropWhile (\<lambda>c. c \<noteq> CHR ''/'') (rev p))
      in if filter (\<lambda>c. c \<noteq> CHR ''/'') head \<noteq> []
         then rev (dropWhile (\<lambda>c. c = CHR ''/'') (rev head))
         else head)"

section \<open>Plots\<close>

text \<open>
  \<open>plt.ylim\<close> raises \<open>ValueError\<close> when a limit is an infinity or a NaN; two equal limits
  only give a warning. Creating the directory and writing the figure are taken to succeed.
\<close>

definition plt_ylim :: "pyfloat \<Rightarrow> pyfloat \<Rightarrow> unit comp" where
  "plt_ylim lo hi =
     (if is_finite lo \<and> is_finite hi then ret ()
      else raise (ValueError ''Axis limits cannot be NaN or Inf''))"

definition create_plot :: "pyfloat list \<Rightarrow> string \<Rightarrow> string \<Rightarrow> unit comp" where
  "create_plot data device_name plot_type =
     (let filename = ''plots/'' @ lower device_name @ ''-'' @ lower plot_type @ ''.png'' in
      then_c (emit (MakeDirs (os_path_dirname filename)))
      (bind_c (np_max data) (\<lambda>max_value.
       bind_c (np_min data) (\<lambda>min_value.
       then_c (plt_ylim min_value max_value)
       (emit (SavePlot filename (device_name @ '' '' @ plot_type) data min_value max_value))))))"

definition create_offset_plot :: "pyfloat list \<Rightarrow> string \<Rightarrow> unit comp" where
  "create_offset_plot data device_name = create_plot data device_name ''Offset''"

definition create_delay_plot :: "pyfloat list \<Rightarrow> string \<Rightarrow> unit comp" where
  "create_delay_plot data device_name = create_plot data device_name ''Delay''"

section \<open>The two tests\<close>

definition run_shapiro_wilk :: "lib \<Rightarrow> pyfloat list \<Rightarrow> string \<Rightarrow> unit comp" where
  "run_shapiro_wilk L data label =
     (if length data < 3
      then emit (Print (tab @ ''  Not enough data to perform Shapiro-Wilk test for '' @ label @ ''.''))
      else
        (case shapiro L data of (stat, p_value) \<Rightarrow>
           then_c (emit (Print (tab @ ''  Shapiro-Wilk Test for '' @ label @ '':'')))
           (then_c (emit (Print (tab @ ''    Statistic: '' @ fmt L 4 stat @ '', p-value: '' @ fmt L 4 p_value)))
           (if fgreater p_value float_0_05
            then emit (Print (tab @ ''    Sample appears to be normally distributed.''))
            else emit (Print (tab @ ''    Sample does NOT appear to be normally distributed.''))))))"

definition run_mannwhiteneyu_test :: "lib \<Rightarrow> pyfloat list \<Rightarrow> pyfloat list \<Rightarrow> string \<Rightarrow> unit comp" where
  "run_mannwhiteneyu_test L data1 data2 label =
     (case mannwhitneyu L data1 data2 of (stat, p_value) \<Rightarrow>
        then_c (emit (Print (tab @ ''  Mann-Whitney U Test for '' @ label @ '':'')))
        (then_c (emit (Print (tab @ ''    Statistic: '' @ fmt L 4 stat @ '', p-value: '' @ fmt L 4 p_value)))
        (let alpha = float_0_05 in
         if fless p_value alpha
         then emit (Print ''Reject Null Hypothesis (Significant difference between two samples)'')
         else emit (Print ''Do not Reject Null Hypothesis (No significant difference between two samples)''))))"

section \<open>The file parser\<close>

text \<open>
  The loop over the lines of the file, with the two lists it appends to. The frequency
  group is read and not used.
\<close>

fun scan_lines :: "string list \<Rightarrow> pyfloat list \<Rightarrow> pyfloat list \<Rightarrow> pyfloat list \<times> pyfloat list" where
  "scan_lines [] offsets delays = (offsets, delays)"
| "scan_lines (line # lines) offsets delays =
     (case search line of
        None \<Rightarrow> scan_lines lines offsets delays
      | Some (offset, frequency, path_delay) \<Rightarrow>
          scan_lines lines (offsets @ [py_float offset]) (delays @ [py_float path_delay]))"

text \<open>The five \<open>print\<close> calls on one array, as written twice in \<open>parse_file\<close>.\<close>

definition print_stats :: "lib \<Rightarrow> string \<Rightarrow> pyfloat list \<Rightarrow> unit comp" where
  "print_stats L header data =
     then_c (emit (Print header))
     (then_c (emit (Print (tab @ ''  Mean: '' @ fmt L 2 (np_mean L data))))
     (bind_c (np_min data) (\<lambda>mn.
      then_c (emit (Print (tab @ ''  Min: '' @ fmt L 2 mn)))
     (bind_c (np_max data) (\<lambda>mx.
      then_c (emit (Print (tab @ ''  Max: '' @ fmt L 2 mx)))
     (emit (Print (tab @ ''  Std Dev: '' @ fmt L 2 (np_std L data)))))))))"

text \<open>
  A file system maps a path to the lines \<open>readlines\<close> returns, or to the way \<open>open\<close> and
  \<open>readlines\<close> fail on it: with an \<open>OSError\<close> (no such file, no permission, a directory)
  or with a \<open>UnicodeDecodeError\<close>, each with the message the interpreter gives it.
\<close>

datatype failure = OSFailure string | DecodeFailure string

type_synonym fs = "string \<Rightarrow> failure + string list"

fun error_of :: "failure \<Rightarrow> error" where
  "error_of (OSFailure m) = OSError m"
| "error_of (DecodeFailure m) = UnicodeDecodeError m"

definition open_readlines :: "fs \<Rightarrow> string \<Rightarrow> string list comp" where
  "open_readlines files path =
     (case files path of
        Inl f \<Rightarrow> raise (error_of f)
      | Inr lines \<Rightarrow> ret lines)"

definition parse_file :: "lib \<Rightarrow> fs \<Rightarrow> string \<Rightarrow> string \<Rightarrow> (pyfloat list \<times> pyfloat list) option comp" where
  "parse_file L files path name =
     bind_c (open_readlines files path) (\<lambda>lines.
       case scan_lines lines [] [] of (offsets, delays) \<Rightarrow>
         if offsets \<noteq> [] \<and> delays \<noteq> []
         then
           then_c (print_stats L (tab @ ''Offset Stats:'') offsets)
           (then_c (run_shapiro_wilk L offsets ''Offsets'')
           (then_c (create_offset_plot offsets name)
           (then_c (print_stats L (newline @ tab @ ''Delay Stats:'') delays)
           (then_c (run_shapiro_wilk L delays ''Delays'')
           (then_c (create_delay_plot delays name)
           (ret (Some (offsets, delays))))))))
         else
           then_c (emit (Print ''No valid offset or delay data found.''))
           (ret None))"

section \<open>The orchestrator\<close>

text \<open>
  A dictionary is an association list in insertion order; \<open>AList.update\<close> replaces the
  value of a key that is present and appends a new key at the end.
\<close>

type_synonym dict = "(string \<times> pyfloat list) list"

definition getitem :: "dict \<Rightarrow> string \<Rightarrow> pyfloat list comp" where
  "getitem d k = (case map_of d k of None \<Rightarrow> raise (KeyError k) | Some v \<Rightarrow> ret v)"

definition machines :: "string \<Rightarrow> (string \<times> string) list" where
  "machines dir =
     [(''Beta'', os_path_join dir ''beta.log''),
      (''Charlie'', os_path_join dir ''charlie.log''),
      (''Delta'', os_path_join dir ''delta.log''),
      (''Echo'', os_path_join dir ''echo.log'')]"

text \<open>
  Unpacking the result of \<open>parse_file\<close> into two names raises \<open>TypeError\<close> when the result
  is \<open>None\<close>; the \<open>try\<close> around it catches every exception of the host and prints it.
\<close>

definition unpack :: "(pyfloat list \<times> pyfloat list) option \<Rightarrow> (pyfloat list \<times> pyfloat list) comp" where
  "unpack r =
     (case r of
        None \<Rightarrow> raise (TypeError ''cannot unpack non-iterable NoneType object'')
      | Some p \<Rightarrow> ret p)"

fun parse_machines :: "lib \<Rightarrow> fs \<Rightarrow> (string \<times> string) list \<Rightarrow> dict \<Rightarrow> dict \<Rightarrow> effect list \<times> dict \<times> dict" where
  "parse_machines L files [] offset_data delay_data = ([], offset_data, delay_data)"
| "parse_machines L files ((name, path) # ms) offset_data delay_data =
     (case bind_c (parse_file L files path name) unpack of
        (out, Inr (offset, delay)) \<Rightarrow>
          (case parse_machines L files ms (AList.update name offset offset_data)
                  (AList.update name delay delay_data) of
             (out', r) \<Rightarrow> (Print name # out @ [Print []] @ out', r))
      | (out, Inl err) \<Rightarrow>
          (case parse_machines L files ms offset_data delay_data of
             (out', r) \<Rightarrow>
               (Print name # out @ [Print (''['' @ name @ ''] Error: '' @ error_message err)] @ out', r)))"

text \<open>The comparison loop over the keys of \<open>control_offset_data\<close>; nothing catches here.\<close>

fun compare_all :: "lib \<Rightarrow> string list \<Rightarrow> dict \<Rightarrow> dict \<Rightarrow> dict \<Rightarrow> dict \<Rightarrow> unit comp" where
  "compare_all L [] co cd eo ed = ret ()"
| "compare_all L (name # names) co cd eo ed =
     then_c (emit (Print (''Comparing Control vs Experimental for '' @ name @ '' Offsets:'')))
     (then_c (emit (Print []))
     (bind_c (getitem co name) (\<lambda>c_off.
      bind_c (getitem eo name) (\<lambda>e_off.
      then_c (run_mannwhiteneyu_test L c_off e_off (name @ '' Offsets''))
     (then_c (emit (Print []))
     (then_c (emit (Print (''Comparing Control vs Experimental for '' @ name @ '' Delays:'')))
     (bind_c (getitem cd name) (\<lambda>c_del.
      bind_c (getitem ed name) (\<lambda>e_del.
      then_c (run_mannwhiteneyu_test L c_del e_del (name @ '' Delays''))
     (then_c (emit (Print []))
     (compare_all L names co cd eo ed)))))))))))"

definition main :: "lib \<Rightarrow> fs \<Rightarrow> string \<Rightarrow> string option \<Rightarrow> unit comp" where
  "main L files control_path experimental_path =
     (case parse_machines L files (machines control_path) [] [] of
        (out, control_offset_data, control_delay_data) \<Rightarrow>
          (case experimental_path of
             None \<Rightarrow> (out, Inr ())
           | Some experimental \<Rightarrow>
               (case parse_machines L files (machines experimental) [] [] of
                  (out', experimental_offset_data, experimental_delay_data) \<Rightarrow>
                    bind_c (out @ out', Inr ()) (\<lambda>_.
                      compare_all L (map fst control_offset_data)
                        control_offset_data control_delay_data
                        experimental_offset_data experimental_delay_data))))"

section \<open>The command line\<close>

text \<open>
  How the process ends: \<open>sys.exit\<close> with a status, the end of the script, or an exception
  that nothing caught, which the interpreter reports with status 1.
\<close>

datatype outcome = Exited nat | Completed | Uncaught error

fun exit_code :: "outcome \<Rightarrow> nat" where
  "exit_code (Exited n) = n"
| "exit_code Completed = 0"
| "exit_code (Uncaught e) = 1"

definition outcome_of :: "unit comp \<Rightarrow> effect list \<times> outcome" where
  "outcome_of m = (case m of (out, Inl e) \<Rightarrow> (out, Uncaught e) | (out, Inr _) \<Rightarrow> (out, Completed))"

definition usage :: string where
  "usage = ''Usage: python main.py <control> [experimental]''"

definition script :: "lib \<Rightarrow> fs \<Rightarrow> string list \<Rightarrow> effect list \<times> outcome" where
  "script L files argv =
     (if length argv > 4 \<or> length argv < 2 then ([Print usage], Exited 1)
      else if length argv = 2 then outcome_of (main L files (argv ! 1) None)
      else outcome_of (main L files (argv ! 1) (Some (argv ! 2))))"

section \<open>Notions used to state the properties\<close>

text \<open>The captures of the matching lines of a file, in the order of the lines.\<close>

definition matches :: "string list \<Rightarrow> (string \<times> string \<times> string) list" where
  "matches lines = List.map_filter search lines"

text \<open>
  Two lines agree up to the frequency when neither matches, or both match with the same
  offset and path-delay captures.
\<close>

definition same_but_frequency :: "string \<Rightarrow> string \<Rightarrow> bool" where
  "same_but_frequency l l' =
     (case (search l, search l') of
        (None, None) \<Rightarrow> True
      | (Some (a, f, d), Some (a', f', d')) \<Rightarrow> a = a' \<and> d = d'
      | _ \<Rightarrow> False)"

text \<open>
  The shape of the captures: items without group markers, and the strings made of an
  optional sign followed by one or more digits.
\<close>

definition groupless :: "item list \<Rightarrow> bool" where
  "groupless p = list_all (\<lambda>it. it \<noteq> GOpen \<and> it \<noteq> GClose) p"

fun numeric_signed :: "string \<Rightarrow> bool" where
  "numeric_signed [] = False"
| "numeric_signed (c # cs) =
     (if c = CHR ''+'' \<or> c = CHR ''-'' then cs \<noteq> [] \<and> list_all is_digit cs
      else list_all is_digit (c # cs))"

definition is_print :: "effect \<Rightarrow> bool" where
  "is_print e = (case e of Print _ \<Rightarrow> True | _ \<Rightarrow> False)"

text \<open>What \<open>parse_file\<close> does with the data it found, up to its \<open>return\<close>.\<close>

definition report :: "lib \<Rightarrow> string \<Rightarrow> pyfloat list \<Rightarrow> pyfloat list \<Rightarrow> unit comp" where
  "report L name offsets delays =
     then_c (print_stats L (tab @ ''Offset Stats:'') offsets)
     (then_c (run_shapiro_wilk L offsets ''Offsets'')
     (then_c (create_offset_plot offsets name)
     (then_c (print_stats L (newline @ tab @ ''Delay Stats:'') delays)
     (then_c (run_shapiro_wilk L delays ''Delays'')
     (create_delay_plot delays name)))))"

text \<open>A non-empty sequence whose minimum and maximum \<open>plt.ylim\<close> accepts.\<close>

definition limits_ok :: "pyfloat list \<Rightarrow> bool" where
  "limits_ok data =
     (case data of
        [] \<Rightarrow> False
      | x # xs \<Rightarrow> is_finite (foldl fmin x xs) \<and> is_finite (foldl fmax x xs))"

text \<open>
  The hosts of a directory whose parse succeeds: the file is read, a line matches, and
  both sequences can be plotted. \<open>host_data\<close> is the pair of sequences of a host, and
  \<open>host_error\<close> the exception that a failed parse leaves to the \<open>except\<close> clause.
\<close>

definition host_ok :: "fs \<Rightarrow> string \<times> string \<Rightarrow> bool" where
  "host_ok files m =
     (case files (snd m) of
        Inl f \<Rightarrow> False
      | Inr lines \<Rightarrow>
          matches lines \<noteq> [] \<and> limits_ok (fst (scan_lines lines [] []))
          \<and> limits_ok (snd (scan_lines lines [] [])))"

definition host_error :: "fs \<Rightarrow> string \<Rightarrow> error" where
  "host_error files path =
     (case files path of
        Inl f \<Rightarrow> error_of f
      | Inr lines \<Rightarrow>
          if matches lines = [] then TypeError ''cannot unpack non-iterable NoneType object''
          else ValueError ''Axis limits cannot be NaN or Inf'')"

definition ok_hosts :: "fs \<Rightarrow> string \<Rightarrow> string list" where
  "ok_hosts files dir = map fst (filter (host_ok files) (machines dir))"

definition host_data :: "fs \<Rightarrow> string \<Rightarrow> pyfloat list \<times> pyfloat list" where
  "host_data files path = (case files path of Inl f \<Rightarrow> ([], []) | Inr lines \<Rightarrow> scan_lines lines [] [])"

definition log_file :: "string \<Rightarrow> string \<Rightarrow> string" where
  "log_file dir name = os_path_join dir (lower name @ ''.log'')"

text \<open>
  What the first loop of \<open>main\<close> does for one host: the name, the effects of the parse, and
  then an empty line or the error of the host.
\<close>

definition host_block :: "lib \<Rightarrow> fs \<Rightarrow> string \<times> string \<Rightarrow> effect list" where
  "host_block L files m =
     Print (fst m) # fst (parse_file L files (snd m) (fst m))
     @ [case snd (bind_c (parse_file L files (snd m) (fst m)) unpack) of
          Inl err \<Rightarrow> Print (''['' @ fst m @ ''] Error: '' @ error_message err)
        | Inr _ \<Rightarrow> Print []]"

text \<open>What the last loop of \<open>main\<close> does for one host when both of its parses succeeded.\<close>

definition compare_block :: "lib \<Rightarrow> fs \<Rightarrow> string \<Rightarrow> string \<Rightarrow> string \<Rightarrow> effect list" where
  "compare_block L files control experimental name =
     [Print (''Comparing Control vs Experimental for '' @ name @ '' Offsets:''), Print []]
     @ fst (run_mannwhiteneyu_test L (fst (host_data files (log_file control name)))
              (fst (host_data files (log_file experimental name))) (name @ '' Offsets''))
     @ [Print [], Print (''Comparing Control vs Experimental for '' @ name @ '' Delays:'')]
     @ fst (run_mannwhiteneyu_test L (snd (host_data files (log_file control name)))
              (snd (host_data files (log_file experimental name))) (name @ '' Delays''))
     @ [Print []]"

text \<open>The runs of the Comparator seen in a trace: the first line each run prints.\<close>

definition mw_header :: "string \<Rightarrow> effect" where
  "mw_header label = Print (tab @ ''  Mann-Whitney U Test for '' @ label @ '':'')"

fun starts_with :: "string \<Rightarrow> string \<Rightarrow> bool" where
  "starts_with [] s = True"
| "starts_with (p # ps) [] = False"
| "starts_with (p # ps) (c # cs) = (p = c \<and> starts_with ps cs)"

definition is_mw_header :: "effect \<Rightarrow> bool" where
  "is_mw_header e =
     (case e of
        Print s \<Rightarrow> starts_with (tab @ ''  Mann-Whitney U Test for '') s
      | _ \<Rightarrow> False)"

definition comparator_runs :: "effect list \<Rightarrow> effect list" where
  "comparator_runs out = filter is_mw_header out"

section \<open>Concrete inputs\<close>

text \<open>
  A stand-in for the numeric libraries, to run the model on concrete inputs: the mean, the
  standard deviation and both statistics are NaN, both p-values are \<open>p\<close>, and every number
  is printed as \<open>#\<close>.
\<close>

definition example_lib :: "pyfloat \<Rightarrow> lib" where
  "example_lib p =
     \<lparr>np_mean = (\<lambda>_. NaN), np_std = (\<lambda>_. NaN), shapiro = (\<lambda>_. (NaN, p)),
      mannwhitneyu = (\<lambda>_ _. (NaN, p)), fmt = (\<lambda>_ _. ''#'')\<rparr>"

definition literal_line :: string where
  "literal_line = ''ptp4l[100]: ptp4l[1.5]: master offset   10 s2 freq   5 path delay   20''"

definition retuned_line :: string where
  "retuned_line = ''ptp4l[100]: ptp4l[1.5]: master offset   10 s2 freq   -731 path delay   20''"

definition noise_line :: string where
  "noise_line = ''ptp4l[100]: ptp4l[1.2]: selected best master clock''"

text \<open>
  A control directory where Beta and Charlie have data, Delta has no matching line and
  Echo has no file; an experimental directory where only Charlie has a file; and a second
  experimental directory where Beta and Charlie have data.
\<close>

definition no_such_file :: "string \<Rightarrow> failure" where
  "no_such_file path =
     OSFailure (''[Errno 2] No such file or directory: '' @ [CHR 0x27] @ path @ [CHR 0x27])"

definition example_files :: fs where
  "example_files path =
     (if path = ''control/beta.log'' then Inr [noise_line, literal_line]
      else if path = ''control/charlie.log'' then Inr [literal_line]
      else if path = ''control/delta.log'' then Inr [noise_line]
      else if path = ''experimental/charlie.log'' then Inr [retuned_line]
      else if path = ''rerun/beta.log'' then Inr [retuned_line]
      else if path = ''rerun/charlie.log'' then Inr [retuned_line, literal_line]
      else Inl (no_such_file path))"

text \<open>A directory tree without any log file.\<close>

definition no_files :: fs where
  "no_files path = Inl (no_such_file path)"

text \<open>
  A line whose offset has 310 digits, which \<open>float\<close> turns into an infinity, and a file
  system whose only log file holds that line.
\<close>

definition huge_line :: string where
  "huge_line = ''ptp4l[100]: ptp4l[1.5]: master offset   1'' @ replicate 309 (CHR ''0'')
     @ '' s2 freq   5 path delay   20''"

definition huge_files :: fs where
  "huge_files path =
     (if path = ''control/beta.log'' then Inr [huge_line] else Inl (no_such_file path))"

section \<open>Computations\<close>

lemma bind_c_Inl [simp]: "bind_c (out, Inl e) f = (out, Inl e)"
  by (simp add: bind_c_def)

lemma bind_c_Inr [simp]: "bind_c (out, Inr x) f = (out @ fst (f x), snd (f x))"
  by (simp add: bind_c_def split: prod.splits)

lemma bind_c_ret [simp]: "bind_c (ret x) f = f x"
  by (simp add: ret_def)

lemma bind_c_raise [simp]: "bind_c (raise e) f = raise e"
  by (simp add: raise_def)

lemma then_c_emit [simp]: "then_c (emit e) k = (e # fst k, snd k)"
  by (simp add: then_c_def emit_def)

lemma fst_emit [simp]: "fst (emit e) = [e]"
  by (simp add: emit_def)

lemma snd_emit [simp]: "snd (emit e) = Inr ()"
  by (simp add: emit_def)

lemma fst_ret [simp]: "fst (ret x) = []"
  by (simp add: ret_def)

lemma snd_ret [simp]: "snd (ret x) = Inr x"
  by (simp add: ret_def)

lemma fst_raise [simp]: "fst (raise e) = []"
  by (simp add: raise_def)

lemma snd_raise [simp]: "snd (raise e) = Inl e"
  by (simp add: raise_def)

lemma then_c_ok: "snd m = Inr () \<Longrightarrow> then_c m k = (fst m @ fst k, snd k)"
  by (cases m) (simp add: then_c_def)

lemma then_c_failed: "snd m = Inl e \<Longrightarrow> then_c m k = (fst m, Inl e)"
  by (cases m) (simp add: then_c_def)

lemma fst_bind_c_ret: "fst (bind_c m (\<lambda>_. ret x)) = fst m"
  by (cases m) (auto simp: bind_c_def ret_def split: sum.splits)

section \<open>Evaluation on the concrete inputs\<close>

lemmas float_eval =
  float_of_magnitude_def round_binary64_def nat_of_digits_def digit_val_def code_def

lemma search_literal_line: "search literal_line = Some (''10'', ''5'', ''20'')"
  unfolding literal_line_def by code_simp

lemma search_retuned_line: "search retuned_line = Some (''10'', ''-731'', ''20'')"
  unfolding retuned_line_def by code_simp

lemma search_noise_line: "search noise_line = None"
  unfolding noise_line_def by code_simp

lemma matches_examples:
  "matches [noise_line, literal_line] = [(''10'', ''5'', ''20'')]"
  "matches [literal_line] = [(''10'', ''5'', ''20'')]"
  "matches [noise_line] = []"
  "matches [retuned_line] = [(''10'', ''-731'', ''20'')]"
  "matches [retuned_line, literal_line] = [(''10'', ''-731'', ''20''), (''10'', ''5'', ''20'')]"
  by (simp_all add: matches_def search_literal_line search_noise_line search_retuned_line)

lemma py_float_10: "py_float ''10'' = Finite 10"
  by (simp add: float_eval)

lemma py_float_20: "py_float ''20'' = Finite 20"
  by (simp add: float_eval)

lemma lower_hosts:
  "lower ''Beta'' = ''beta''" "lower ''Charlie'' = ''charlie''"
  "lower ''Delta'' = ''delta''" "lower ''Echo'' = ''echo''"
  "lower ''Offset'' = ''offset''" "lower ''Delay'' = ''delay''"
  by code_simp+

section \<open>The scan of the lines\<close>

lemma scan_lines_acc:
  "scan_lines lines offsets delays =
     (offsets @ map (\<lambda>(a, f, d). py_float a) (matches lines),
      delays @ map (\<lambda>(a, f, d). py_float d) (matches lines))"
proof (induction lines arbitrary: offsets delays)
  case Nil
  show ?case by (simp add: matches_def)
next
  case (Cons line lines)
  show ?case
  proof (cases "search line")
    case None
    then show ?thesis using Cons.IH by (simp add: matches_def)
  next
    case (Some g)
    then show ?thesis using Cons.IH
      by (cases g) (simp add: matches_def)
  qed
qed

lemma matches_empty_iff: "matches lines = [] \<longleftrightarrow> (\<forall>line \<in> set lines. search line = None)"
  by (induction lines) (auto simp: matches_def split: option.splits)

text \<open>
  C5. On the literal line of the specification the extractor matches with the captures
  10, 5 and 20; the coerced offset is 10.0 and the coerced path delay is 20.0, and these
  are what the scan appends.
\<close>

theorem literal_line_extracted:
  "search ''ptp4l[100]: ptp4l[1.5]: master offset   10 s2 freq   5 path delay   20''
     = Some (''10'', ''5'', ''20'')
   \<and> py_float ''10'' = Finite 10 \<and> py_float ''20'' = Finite 20
   \<and> scan_lines [''ptp4l[100]: ptp4l[1.5]: master offset   10 s2 freq   5 path delay   20''] [] []
     = ([Finite 10], [Finite 20])"
  using search_literal_line
  by (simp add: literal_line_def py_float_10 py_float_20 del: py_float.simps)

section \<open>The file parser\<close>

lemma np_max_nonempty: "data \<noteq> [] \<Longrightarrow> np_max data = ret (foldl fmax (hd data) (tl data))"
  by (cases data) (simp_all add: np_max_def)

lemma np_min_nonempty: "data \<noteq> [] \<Longrightarrow> np_min data = ret (foldl fmin (hd data) (tl data))"
  by (cases data) (simp_all add: np_min_def)

lemma limits_ok_nonempty:
  "data \<noteq> [] \<Longrightarrow>
   limits_ok data \<longleftrightarrow>
     is_finite (foldl fmin (hd data) (tl data)) \<and> is_finite (foldl fmax (hd data) (tl data))"
  by (cases data) (simp_all add: limits_ok_def)

lemma create_plot_empty:
  "create_plot [] device_name plot_type =
     ([MakeDirs (os_path_dirname (''plots/'' @ lower device_name @ ''-'' @ lower plot_type @ ''.png''))],
      Inl (ValueError ''zero-size array to reduction operation maximum which has no identity''))"
  by (simp add: create_plot_def np_max_def Let_def)

lemma create_plot_nonempty:
  "data \<noteq> [] \<Longrightarrow>
   create_plot data device_name plot_type =
     (if limits_ok data
      then ([MakeDirs (os_path_dirname (''plots/'' @ lower device_name @ ''-'' @ lower plot_type @ ''.png'')),
             SavePlot (''plots/'' @ lower device_name @ ''-'' @ lower plot_type @ ''.png'')
               (device_name @ '' '' @ plot_type) data
               (foldl fmin (hd data) (tl data)) (foldl fmax (hd data) (tl data))],
            Inr ())
      else ([MakeDirs (os_path_dirname (''plots/'' @ lower device_name @ ''-'' @ lower plot_type @ ''.png''))],
            Inl (ValueError ''Axis limits cannot be NaN or Inf'')))"
  by (auto simp: create_plot_def np_max_nonempty np_min_nonempty Let_def limits_ok_nonempty
        plt_ylim_def then_c_ok then_c_failed)

lemma print_stats_nonempty:
  "data \<noteq> [] \<Longrightarrow>
   print_stats L header data =
     ([Print header,
       Print (tab @ ''  Mean: '' @ fmt L 2 (np_mean L data)),
       Print (tab @ ''  Min: '' @ fmt L 2 (foldl fmin (hd data) (tl data))),
       Print (tab @ ''  Max: '' @ fmt L 2 (foldl fmax (hd data) (tl data))),
       Print (tab @ ''  Std Dev: '' @ fmt L 2 (np_std L data))],
      Inr ())"
  by (simp add: print_stats_def np_max_nonempty np_min_nonempty)

lemma run_shapiro_wilk_ok: "snd (run_shapiro_wilk L data label) = Inr ()"
  by (simp add: run_shapiro_wilk_def split: prod.splits)

lemma run_shapiro_wilk_prints: "list_all is_print (fst (run_shapiro_wilk L data label))"
  by (simp add: run_shapiro_wilk_def is_print_def split: prod.splits)

lemma run_mannwhiteneyu_test_ok: "snd (run_mannwhiteneyu_test L data1 data2 label) = Inr ()"
  by (simp add: run_mannwhiteneyu_test_def split: prod.splits)

text \<open>
  The report on non-empty data: the offsets part, and, when the offsets can be plotted,
  the delays part. It fails only in \<open>plt.ylim\<close>.
\<close>

lemma report_unfolded:
  assumes "offsets \<noteq> []" and "delays \<noteq> []"
  shows "report L name offsets delays =
     (fst (print_stats L (tab @ ''Offset Stats:'') offsets)
      @ fst (run_shapiro_wilk L offsets ''Offsets'')
      @ fst (create_plot offsets name ''Offset'')
      @ (if limits_ok offsets
         then fst (print_stats L (newline @ tab @ ''Delay Stats:'') delays)
              @ fst (run_shapiro_wilk L delays ''Delays'')
              @ fst (create_plot delays name ''Delay'')
         else []),
      if limits_ok offsets \<and> limits_ok delays then Inr ()
      else Inl (ValueError ''Axis limits cannot be NaN or Inf''))"
proof -
  have p: "snd (print_stats L h data) = Inr ()" if "data \<noteq> []" for h data
    using that by (simp add: print_stats_nonempty)
  have c: "snd (create_plot data name t) =
      (if limits_ok data then Inr () else Inl (ValueError ''Axis limits cannot be NaN or Inf''))"
    if "data \<noteq> []" for data t
    using that by (simp add: create_plot_nonempty)
  show ?thesis
  proof (cases "limits_ok offsets")
    case True
    then show ?thesis
      using assms
      by (simp add: report_def create_offset_plot_def create_delay_plot_def then_c_ok p c
            run_shapiro_wilk_ok prod_eq_iff)
  next
    case False
    then show ?thesis
      using assms
      by (simp add: report_def create_offset_plot_def create_delay_plot_def then_c_ok p c
            run_shapiro_wilk_ok then_c_failed [where e = "ValueError ''Axis limits cannot be NaN or Inf''"])
  qed
qed

text \<open>The ways \<open>parse_file\<close> ends.\<close>

lemma parse_file_cases:
  "parse_file L files path name =
     (case files path of
        Inl f \<Rightarrow> ([], Inl (error_of f))
      | Inr lines \<Rightarrow>
          if matches lines = [] then ([Print ''No valid offset or delay data found.''], Inr None)
          else bind_c (report L name (fst (scan_lines lines [] [])) (snd (scan_lines lines [] [])))
                 (\<lambda>_. ret (Some (scan_lines lines [] []))))"
proof (cases "files path")
  case (Inl f)
  then show ?thesis by (simp add: parse_file_def open_readlines_def raise_def)
next
  case (Inr lines)
  show ?thesis
  proof (cases "matches lines = []")
    case True
    then show ?thesis using Inr
      by (simp add: parse_file_def open_readlines_def scan_lines_acc)
  next
    case False
    obtain offs dels where sc: "scan_lines lines [] [] = (offs, dels)"
      by (cases "scan_lines lines [] []")
    have ne: "offs \<noteq> []" "dels \<noteq> []" using False sc by (auto simp: scan_lines_acc)
    have a: "then_c m1 (then_c m2 (then_c m3 (then_c m4 (then_c m5 (then_c m6 k))))) =
        bind_c (then_c m1 (then_c m2 (then_c m3 (then_c m4 (then_c m5 m6))))) (\<lambda>_. k)"
      for m1 m2 m3 m4 m5 m6 :: "unit comp" and k :: "(pyfloat list \<times> pyfloat list) option comp"
      by (cases m1; cases m2; cases m3; cases m4; cases m5; cases m6)
         (auto simp: then_c_def bind_c_def split: sum.splits prod.splits)
    show ?thesis
      using Inr False ne
      by (simp add: parse_file_def open_readlines_def sc a report_def)
  qed
qed

lemma parse_file_result:
  "snd (parse_file L files path name) =
     (case files path of
        Inl f \<Rightarrow> Inl (error_of f)
      | Inr lines \<Rightarrow>
          if matches lines = [] then Inr None
          else if limits_ok (fst (scan_lines lines [] [])) \<and> limits_ok (snd (scan_lines lines [] []))
          then Inr (Some (scan_lines lines [] []))
          else Inl (ValueError ''Axis limits cannot be NaN or Inf''))"
proof (cases "files path")
  case (Inl f)
  then show ?thesis by (simp add: parse_file_cases)
next
  case (Inr lines)
  show ?thesis
  proof (cases "matches lines = []")
    case True
    then show ?thesis using Inr by (simp add: parse_file_cases)
  next
    case False
    then have ne: "fst (scan_lines lines [] []) \<noteq> []" "snd (scan_lines lines [] []) \<noteq> []"
      by (simp_all add: scan_lines_acc)
    show ?thesis
      using Inr False by (simp add: parse_file_cases report_unfolded [OF ne])
  qed
qed

lemma parse_file_effects:
  "files path = Inr lines \<Longrightarrow> matches lines \<noteq> [] \<Longrightarrow>
   fst (parse_file L files path name)
     = fst (report L name (fst (scan_lines lines [] [])) (snd (scan_lines lines [] [])))"
  by (simp add: parse_file_cases fst_bind_c_ret)

lemma report_effects:
  assumes "offsets \<noteq> []" and "delays \<noteq> []" and "e \<in> set (fst (report L name offsets delays))"
  shows "is_print e
     \<or> e = MakeDirs (os_path_dirname (''plots/'' @ lower name @ ''-'' @ lower ''Offset'' @ ''.png''))
     \<or> e = MakeDirs (os_path_dirname (''plots/'' @ lower name @ ''-'' @ lower ''Delay'' @ ''.png''))
     \<or> (\<exists>f t lo hi. e = SavePlot f t offsets lo hi)
     \<or> (\<exists>f t lo hi. e = SavePlot f t delays lo hi)"
proof -
  have sw: "x \<in> set (fst (run_shapiro_wilk L data label)) \<Longrightarrow> is_print x" for x data label
    using run_shapiro_wilk_prints [of L data label] by (simp add: list_all_iff)
  show ?thesis
    using assms(3) sw [of e offsets "''Offsets''"] sw [of e delays "''Delays''"]
    unfolding report_unfolded [OF assms(1,2)]
    by (auto simp: print_stats_nonempty create_plot_nonempty assms(1,2) is_print_def
          simp del: append.simps split: if_splits)
qed

text \<open>
  C4. For every list of lines, the offsets and the delays that the scan of \<open>parse_file\<close>
  builds have the same length, which is the number of matching lines, and they are the
  coerced first and third captures of the matching lines, in the order of the lines. The
  pair of sequences that \<open>parse_file\<close> returns for a file is the pair the scan built.
\<close>

theorem scan_lines_aligned:
  "length (fst (scan_lines lines [] [])) = length (snd (scan_lines lines [] []))
   \<and> length (fst (scan_lines lines [] [])) = length (matches lines)
   \<and> fst (scan_lines lines [] []) = map (\<lambda>(a, f, d). py_float a) (matches lines)
   \<and> snd (scan_lines lines [] []) = map (\<lambda>(a, f, d). py_float d) (matches lines)
   \<and> (files path = Inr lines \<longrightarrow>
        snd (parse_file L files path name) = Inr (Some (offsets, delays)) \<longrightarrow>
        length offsets = length delays
        \<and> offsets = map (\<lambda>(a, f, d). py_float a) (matches lines)
        \<and> delays = map (\<lambda>(a, f, d). py_float d) (matches lines))"
  by (auto simp: scan_lines_acc parse_file_result split: if_splits)

lemma scan_examples:
  "scan_lines [noise_line, literal_line] [] [] = ([Finite 10], [Finite 20])"
  "scan_lines [literal_line] [] [] = ([Finite 10], [Finite 20])"
  "scan_lines [retuned_line] [] [] = ([Finite 10], [Finite 20])"
  "scan_lines [retuned_line, literal_line] [] [] = ([Finite 10, Finite 10], [Finite 20, Finite 20])"
  by (simp_all add: scan_lines_acc matches_examples py_float_10 py_float_20
        del: py_float.simps scan_lines.simps)

lemma limits_ok_examples:
  "limits_ok [Finite 10]" "limits_ok [Finite 20]"
  "limits_ok [Finite 10, Finite 10]" "limits_ok [Finite 20, Finite 20]"
  by (simp_all add: limits_ok_def fmin_def fmax_def)

theorem scan_lines_aligned_witness:
  "example_files ''control/beta.log'' = Inr [noise_line, literal_line]
   \<and> snd (parse_file (example_lib NaN) example_files ''control/beta.log'' ''Beta'')
       = Inr (Some ([Finite 10], [Finite 20]))
   \<and> matches [noise_line, literal_line] = [(''10'', ''5'', ''20'')]
   \<and> length [Finite 10] = length [Finite 20]
   \<and> [Finite 10] = map (\<lambda>(a, f, d). py_float a) (matches [noise_line, literal_line])
   \<and> [Finite 20] = map (\<lambda>(a, f, d). py_float d) (matches [noise_line, literal_line])"
proof -
  have f: "example_files ''control/beta.log'' = Inr [noise_line, literal_line]"
    by (simp add: example_files_def)
  have r: "snd (parse_file (example_lib NaN) example_files ''control/beta.log'' ''Beta'')
       = Inr (Some ([Finite 10], [Finite 20]))"
    by (simp add: parse_file_result f scan_examples matches_examples limits_ok_examples
          del: scan_lines.simps)
  note t = scan_lines_aligned [where files = example_files and path = "''control/beta.log''"
      and lines = "[noise_line, literal_line]" and L = "example_lib NaN" and name = "''Beta''"
      and offsets = "[Finite 10]" and delays = "[Finite 20]"]
  from t f r show ?thesis by (simp add: matches_examples)
qed

text \<open>
  C3. When the file is read and none of its lines matches, \<open>parse_file\<close> prints the line
  \<open>No valid offset or delay data found.\<close> and nothing else, and returns \<open>None\<close>: a value,
  not an exception.
\<close>

theorem no_match_reports_absence:
  assumes "files path = Inr lines" and "\<forall>line \<in> set lines. search line = None"
  shows "parse_file L files path name = ([Print ''No valid offset or delay data found.''], Inr None)"
proof -
  have "matches lines = []" using assms(2) by (simp add: matches_empty_iff)
  then show ?thesis using assms(1) by (simp add: parse_file_cases)
qed

theorem no_match_reports_absence_witness:
  "example_files ''control/delta.log'' = Inr [noise_line]
   \<and> search noise_line = None
   \<and> parse_file (example_lib NaN) example_files ''control/delta.log'' ''Delta''
       = ([Print ''No valid offset or delay data found.''], Inr None)"
proof -
  have f: "example_files ''control/delta.log'' = Inr [noise_line]"
    by (simp add: example_files_def)
  have n: "\<forall>line \<in> set [noise_line]. search line = None"
    by (simp add: search_noise_line)
  show ?thesis
    using f search_noise_line
      no_match_reports_absence [where files = example_files and path = "''control/delta.log''"
        and lines = "[noise_line]" and L = "example_lib NaN" and name = "''Delta''", OF f n]
    by simp
qed

section \<open>The two tests\<close>

text \<open>
  C6. On fewer than three values \<open>run_shapiro_wilk\<close> prints the line \<open>Not enough data\<close> and
  returns; the library test plays no part in what it does. On three values or more it
  prints the statistic and the p-value of \<open>shapiro\<close> and then one verdict, decided by the
  p-value alone: \<open>normally distributed\<close> when the p-value is a number above the double
  \<open>3602879701896397 / 2 ^ 56\<close> (the literal 0.05, within \<open>2 ^ -58\<close> of one twentieth) or is
  plus infinity, and \<open>NOT normally distributed\<close> when it is a number up to that double,
  minus infinity or a NaN.
\<close>

theorem shapiro_wilk_threshold:
  "(length data < 3 \<longrightarrow>
      run_shapiro_wilk L data label =
        ([Print (tab @ ''  Not enough data to perform Shapiro-Wilk test for '' @ label @ ''.'')], Inr ())
      \<and> run_shapiro_wilk L data label = run_shapiro_wilk L' data label)
   \<and> (3 \<le> length data \<longrightarrow>
      run_shapiro_wilk L data label =
        ([Print (tab @ ''  Shapiro-Wilk Test for '' @ label @ '':''),
          Print (tab @ ''    Statistic: '' @ fmt L 4 (fst (shapiro L data)) @ '', p-value: ''
                 @ fmt L 4 (snd (shapiro L data))),
          Print (case snd (shapiro L data) of
                   Finite r \<Rightarrow>
                     if 3602879701896397 / 2 ^ 56 < r
                     then tab @ ''    Sample appears to be normally distributed.''
                     else tab @ ''    Sample does NOT appear to be normally distributed.''
                 | NegZero \<Rightarrow> tab @ ''    Sample does NOT appear to be normally distributed.''
                 | PInf \<Rightarrow> tab @ ''    Sample appears to be normally distributed.''
                 | NInf \<Rightarrow> tab @ ''    Sample does NOT appear to be normally distributed.''
                 | NaN \<Rightarrow> tab @ ''    Sample does NOT appear to be normally distributed.'')],
         Inr ())
      \<and> (snd (shapiro L data) = Finite r \<longrightarrow>
           (Print (tab @ ''    Sample appears to be normally distributed.'')
              \<in> set (fst (run_shapiro_wilk L data label))
            \<longleftrightarrow> 3602879701896397 / 2 ^ 56 < r)))
   \<and> \<bar>3602879701896397 / 2 ^ 56 - 5 / 100\<bar> < (1 / 2 ^ 58 :: real)"
  by (cases "snd (shapiro L data)")
     (simp_all add: run_shapiro_wilk_def prod_eq_iff fgreater_def float_0_05_def split: prod.splits)

theorem shapiro_wilk_threshold_witness:
  "length [Finite 1, Finite 2] < 3
   \<and> run_shapiro_wilk (example_lib (Finite (1 / 2))) [Finite 1, Finite 2] ''Offsets''
       = ([Print (tab @ ''  Not enough data to perform Shapiro-Wilk test for Offsets.'')], Inr ())
   \<and> 3 \<le> length [Finite 1, Finite 2, Finite 3]
   \<and> run_shapiro_wilk (example_lib (Finite (1 / 2))) [Finite 1, Finite 2, Finite 3] ''Offsets''
       = ([Print (tab @ ''  Shapiro-Wilk Test for Offsets:''),
           Print (tab @ ''    Statistic: #, p-value: #''),
           Print (tab @ ''    Sample appears to be normally distributed.'')], Inr ())
   \<and> run_shapiro_wilk (example_lib (Finite (1 / 100))) [Finite 1, Finite 2, Finite 3] ''Offsets''
       = ([Print (tab @ ''  Shapiro-Wilk Test for Offsets:''),
           Print (tab @ ''    Statistic: #, p-value: #''),
           Print (tab @ ''    Sample does NOT appear to be normally distributed.'')], Inr ())
   \<and> run_shapiro_wilk (example_lib (Finite (3602879701896397 / 2 ^ 56)))
         [Finite 1, Finite 2, Finite 3] ''Offsets''
       = ([Print (tab @ ''  Shapiro-Wilk Test for Offsets:''),
           Print (tab @ ''    Statistic: #, p-value: #''),
           Print (tab @ ''    Sample does NOT appear to be normally distributed.'')], Inr ())
   \<and> run_shapiro_wilk (example_lib NaN) [Finite 1, Finite 2, Finite 3] ''Offsets''
       = ([Print (tab @ ''  Shapiro-Wilk Test for Offsets:''),
           Print (tab @ ''    Statistic: #, p-value: #''),
           Print (tab @ ''    Sample does NOT appear to be normally distributed.'')], Inr ())"
proof -
  let ?d = "[Finite 1, Finite 2, Finite 3]"
  note short = shapiro_wilk_threshold [where data = "[Finite 1, Finite 2]"
      and L = "example_lib (Finite (1 / 2))" and L' = "example_lib NaN" and label = "''Offsets''"
      and r = 0, THEN conjunct1, rule_format, THEN conjunct1]
  have long: "run_shapiro_wilk L ?d ''Offsets'' =
        ([Print (tab @ ''  Shapiro-Wilk Test for '' @ ''Offsets'' @ '':''),
          Print (tab @ ''    Statistic: '' @ fmt L 4 (fst (shapiro L ?d)) @ '', p-value: ''
                 @ fmt L 4 (snd (shapiro L ?d))),
          Print (case snd (shapiro L ?d) of
                   Finite r \<Rightarrow>
                     if 3602879701896397 / 2 ^ 56 < r
                     then tab @ ''    Sample appears to be normally distributed.''
                     else tab @ ''    Sample does NOT appear to be normally distributed.''
                 | NegZero \<Rightarrow> tab @ ''    Sample does NOT appear to be normally distributed.''
                 | PInf \<Rightarrow> tab @ ''    Sample appears to be normally distributed.''
                 | NInf \<Rightarrow> tab @ ''    Sample does NOT appear to be normally distributed.''
                 | NaN \<Rightarrow> tab @ ''    Sample does NOT appear to be normally distributed.'')],
         Inr ())" for L
    using shapiro_wilk_threshold [where data = ?d and L = L and L' = "example_lib NaN"
      and label = "''Offsets''" and r = 0]
    by simp
  have 1: "run_shapiro_wilk (example_lib (Finite (1 / 2))) [Finite 1, Finite 2] ''Offsets''
       = ([Print (tab @ ''  Not enough data to perform Shapiro-Wilk test for Offsets.'')], Inr ())"
    using short by simp
  have 2: "run_shapiro_wilk (example_lib (Finite (1 / 2))) ?d ''Offsets''
       = ([Print (tab @ ''  Shapiro-Wilk Test for Offsets:''),
           Print (tab @ ''    Statistic: #, p-value: #''),
           Print (tab @ ''    Sample appears to be normally distributed.'')], Inr ())"
    using long [of "example_lib (Finite (1 / 2))"] by (simp add: example_lib_def)
  have 3: "run_shapiro_wilk (example_lib (Finite (1 / 100))) ?d ''Offsets''
       = ([Print (tab @ ''  Shapiro-Wilk Test for Offsets:''),
           Print (tab @ ''    Statistic: #, p-value: #''),
           Print (tab @ ''    Sample does NOT appear to be normally distributed.'')], Inr ())"
    using long [of "example_lib (Finite (1 / 100))"] by (simp add: example_lib_def)
  have 4: "run_shapiro_wilk (example_lib (Finite (3602879701896397 / 2 ^ 56))) ?d ''Offsets''
       = ([Print (tab @ ''  Shapiro-Wilk Test for Offsets:''),
           Print (tab @ ''    Statistic: #, p-value: #''),
           Print (tab @ ''    Sample does NOT appear to be normally distributed.'')], Inr ())"
    using long [of "example_lib (Finite (3602879701896397 / 2 ^ 56))"]
    by (simp add: example_lib_def)
  have 5: "run_shapiro_wilk (example_lib NaN) ?d ''Offsets''
       = ([Print (tab @ ''  Shapiro-Wilk Test for Offsets:''),
           Print (tab @ ''    Statistic: #, p-value: #''),
           Print (tab @ ''    Sample does NOT appear to be normally distributed.'')], Inr ())"
    using long [of "example_lib NaN"] by (simp add: example_lib_def)
  show ?thesis using 1 2 3 4 5 by simp
qed

text \<open>
  C8. \<open>run_mannwhiteneyu_test\<close> prints the statistic and the p-value of \<open>mannwhitneyu\<close> and then
  one verdict, decided by the p-value alone: \<open>Reject Null Hypothesis\<close> when the p-value is
  a number strictly below the double \<open>3602879701896397 / 2 ^ 56\<close> (the literal 0.05, within
  \<open>2 ^ -58\<close> of one twentieth) or is minus infinity, and \<open>Do not Reject Null Hypothesis\<close>
  otherwise: for that double itself, for any larger number, for plus infinity and for a
  NaN.
\<close>

theorem mann_whitney_verdict:
  "run_mannwhiteneyu_test L data1 data2 label =
     ([Print (tab @ ''  Mann-Whitney U Test for '' @ label @ '':''),
       Print (tab @ ''    Statistic: '' @ fmt L 4 (fst (mannwhitneyu L data1 data2)) @ '', p-value: ''
              @ fmt L 4 (snd (mannwhitneyu L data1 data2))),
       Print (case snd (mannwhitneyu L data1 data2) of
                Finite r \<Rightarrow>
                  if r < 3602879701896397 / 2 ^ 56
                  then ''Reject Null Hypothesis (Significant difference between two samples)''
                  else ''Do not Reject Null Hypothesis (No significant difference between two samples)''
              | NegZero \<Rightarrow> ''Reject Null Hypothesis (Significant difference between two samples)''
              | PInf \<Rightarrow> ''Do not Reject Null Hypothesis (No significant difference between two samples)''
              | NInf \<Rightarrow> ''Reject Null Hypothesis (Significant difference between two samples)''
              | NaN \<Rightarrow> ''Do not Reject Null Hypothesis (No significant difference between two samples)'')],
      Inr ())
   \<and> \<bar>3602879701896397 / 2 ^ 56 - 5 / 100\<bar> < (1 / 2 ^ 58 :: real)"
  by (cases "snd (mannwhitneyu L data1 data2)")
     (simp_all add: run_mannwhiteneyu_test_def prod_eq_iff float_0_05_def split: prod.splits)

theorem mann_whitney_verdict_witness:
  "run_mannwhiteneyu_test (example_lib (Finite (1 / 100))) [Finite 1] [Finite 2, Finite 3] ''Beta Offsets''
     = ([Print (tab @ ''  Mann-Whitney U Test for Beta Offsets:''),
         Print (tab @ ''    Statistic: #, p-value: #''),
         Print ''Reject Null Hypothesis (Significant difference between two samples)''], Inr ())
   \<and> run_mannwhiteneyu_test (example_lib (Finite (3602879701896397 / 2 ^ 56))) [Finite 1]
         [Finite 2, Finite 3] ''Beta Offsets''
     = ([Print (tab @ ''  Mann-Whitney U Test for Beta Offsets:''),
         Print (tab @ ''    Statistic: #, p-value: #''),
         Print ''Do not Reject Null Hypothesis (No significant difference between two samples)''], Inr ())
   \<and> run_mannwhiteneyu_test (example_lib (Finite (1 / 2))) [Finite 1] [Finite 2, Finite 3] ''Beta Offsets''
     = ([Print (tab @ ''  Mann-Whitney U Test for Beta Offsets:''),
         Print (tab @ ''    Statistic: #, p-value: #''),
         Print ''Do not Reject Null Hypothesis (No significant difference between two samples)''], Inr ())
   \<and> run_mannwhiteneyu_test (example_lib NaN) [Finite 1] [Finite 2, Finite 3] ''Beta Offsets''
     = ([Print (tab @ ''  Mann-Whitney U Test for Beta Offsets:''),
         Print (tab @ ''    Statistic: #, p-value: #''),
         Print ''Do not Reject Null Hypothesis (No significant difference between two samples)''], Inr ())"
proof -
  note v = mann_whitney_verdict [of _ "[Finite 1]" "[Finite 2, Finite 3]" "''Beta Offsets''",
      THEN conjunct1]
  have 1: "run_mannwhiteneyu_test (example_lib (Finite (1 / 100))) [Finite 1] [Finite 2, Finite 3] ''Beta Offsets''
     = ([Print (tab @ ''  Mann-Whitney U Test for Beta Offsets:''),
         Print (tab @ ''    Statistic: #, p-value: #''),
         Print ''Reject Null Hypothesis (Significant difference between two samples)''], Inr ())"
    using v [of "example_lib (Finite (1 / 100))"] by (simp add: example_lib_def)
  have 2: "run_mannwhiteneyu_test (example_lib (Finite (3602879701896397 / 2 ^ 56))) [Finite 1]
         [Finite 2, Finite 3] ''Beta Offsets''
     = ([Print (tab @ ''  Mann-Whitney U Test for Beta Offsets:''),
         Print (tab @ ''    Statistic: #, p-value: #''),
         Print ''Do not Reject Null Hypothesis (No significant difference between two samples)''], Inr ())"
    using v [of "example_lib (Finite (3602879701896397 / 2 ^ 56))"]
    by (simp add: example_lib_def)
  have 3: "run_mannwhiteneyu_test (example_lib (Finite (1 / 2))) [Finite 1] [Finite 2, Finite 3] ''Beta Offsets''
     = ([Print (tab @ ''  Mann-Whitney U Test for Beta Offsets:''),
         Print (tab @ ''    Statistic: #, p-value: #''),
         Print ''Do not Reject Null Hypothesis (No significant difference between two samples)''], Inr ())"
    using v [of "example_lib (Finite (1 / 2))"] by (simp add: example_lib_def)
  have 4: "run_mannwhiteneyu_test (example_lib NaN) [Finite 1] [Finite 2, Finite 3] ''Beta Offsets''
     = ([Print (tab @ ''  Mann-Whitney U Test for Beta Offsets:''),
         Print (tab @ ''    Statistic: #, p-value: #''),
         Print ''Do not Reject Null Hypothesis (No significant difference between two samples)''], Inr ())"
    using v [of "example_lib NaN"] by (simp add: example_lib_def)
  show ?thesis using 1 2 3 4 by simp
qed

section \<open>The frequency capture\<close>

lemma same_but_frequency_matches:
  "list_all2 same_but_frequency lines lines' \<Longrightarrow>
   map (\<lambda>(a, f, d). (a, d)) (matches lines) = map (\<lambda>(a, f, d). (a, d)) (matches lines')"
proof (induction rule: list_all2_induct)
  case Nil
  show ?case by simp
next
  case (Cons l ls l' ls')
  then show ?case
    by (auto simp: same_but_frequency_def matches_def split: option.splits)
qed

lemma scan_lines_from_pairs:
  "scan_lines lines [] [] =
     (map (py_float \<circ> fst) (map (\<lambda>(a, f, d). (a, d)) (matches lines)),
      map (py_float \<circ> snd) (map (\<lambda>(a, f, d). (a, d)) (matches lines)))"
  by (simp add: scan_lines_acc split_def comp_def del: py_float.simps)

text \<open>
  C9. The frequency capture influences nothing. When the lines of two files agree pairwise
  up to the frequency (neither line matches, or both match with the same offset and the
  same path-delay capture), the scan gives the same two sequences, and \<open>parse_file\<close> has the
  same effects, prints and plots alike, and the same result on both files.
\<close>

theorem frequency_not_used:
  assumes "files path = Inr lines" and "files' path' = Inr lines'"
    and "list_all2 same_but_frequency lines lines'"
  shows "scan_lines lines [] [] = scan_lines lines' [] []
     \<and> parse_file L files path name = parse_file L files' path' name"
proof -
  have m: "map (\<lambda>(a, f, d). (a, d)) (matches lines) = map (\<lambda>(a, f, d). (a, d)) (matches lines')"
    using assms(3) by (rule same_but_frequency_matches)
  have s: "scan_lines lines [] [] = scan_lines lines' [] []"
    by (simp only: scan_lines_from_pairs m)
  have "length (matches lines) = length (matches lines')"
    using arg_cong [OF m, of length] by simp
  then have e: "matches lines = [] \<longleftrightarrow> matches lines' = []"
    by auto
  show ?thesis
    using assms(1,2) s e by (simp add: parse_file_cases)
qed

theorem frequency_not_used_witness:
  "example_files ''control/charlie.log'' = Inr [literal_line]
   \<and> example_files ''experimental/charlie.log'' = Inr [retuned_line]
   \<and> list_all2 same_but_frequency [literal_line] [retuned_line]
   \<and> literal_line \<noteq> retuned_line
   \<and> scan_lines [literal_line] [] [] = scan_lines [retuned_line] [] []
   \<and> parse_file (example_lib NaN) example_files ''control/charlie.log'' ''Charlie''
       = parse_file (example_lib NaN) example_files ''experimental/charlie.log'' ''Charlie''"
proof -
  have f: "example_files ''control/charlie.log'' = Inr [literal_line]"
    by (simp add: example_files_def)
  have f': "example_files ''experimental/charlie.log'' = Inr [retuned_line]"
    by (simp add: example_files_def)
  have r: "list_all2 same_but_frequency [literal_line] [retuned_line]"
    by (simp add: same_but_frequency_def search_literal_line search_retuned_line)
  have d: "literal_line \<noteq> retuned_line"
    by (simp add: literal_line_def retuned_line_def)
  show ?thesis
    using f f' r d
      frequency_not_used [where files = example_files and files' = example_files
        and path = "''control/charlie.log''" and path' = "''experimental/charlie.log''"
        and lines = "[literal_line]" and lines' = "[retuned_line]"
        and L = "example_lib NaN" and name = "''Charlie''", OF f f' r]
    by simp
qed

section \<open>The orchestrator\<close>

lemma update_fresh: "k \<notin> fst ` set d \<Longrightarrow> AList.update k v d = d @ [(k, v)]"
  by (induction d) auto

lemma unpack_parse_file:
  "bind_c (parse_file L files path name) unpack =
     (fst (parse_file L files path name),
      if host_ok files (name, path) then Inr (host_data files path)
      else Inl (host_error files path))"
proof -
  have s: "snd (bind_c m unpack) = (case snd m of Inl e \<Rightarrow> Inl e | Inr r \<Rightarrow> snd (unpack r))" for m
    by (cases m) (auto simp: bind_c_def split: sum.splits prod.splits)
  have f: "fst (bind_c m unpack) = fst m" for m
    by (cases m) (auto simp: bind_c_def unpack_def ret_def raise_def split: sum.splits option.splits)
  show ?thesis
  proof (cases "files path")
    case (Inl x)
    then show ?thesis
      by (simp add: prod_eq_iff f s parse_file_result host_ok_def host_error_def)
  next
    case (Inr lines)
    then show ?thesis
      by (simp add: prod_eq_iff f s parse_file_result host_ok_def host_data_def host_error_def unpack_def)
  qed
qed

lemma host_block_ok:
  "host_ok files (name, path) \<Longrightarrow>
   host_block L files (name, path) = Print name # fst (parse_file L files path name) @ [Print []]"
  by (simp add: host_block_def unpack_parse_file)

lemma host_block_failed:
  "\<not> host_ok files (name, path) \<Longrightarrow>
   host_block L files (name, path) =
     Print name # fst (parse_file L files path name)
     @ [Print (''['' @ name @ ''] Error: '' @ error_message (host_error files path))]"
  by (simp add: host_block_def unpack_parse_file)

text \<open>
  The loop over the hosts never stops early: every host has its block in the trace, and
  the dictionaries hold the data of the hosts whose parse succeeded, in the order of the
  list.
\<close>

lemma parse_machines_result:
  assumes "distinct (map fst ms)"
    and "fst ` set ms \<inter> fst ` set offset_data = {}"
    and "fst ` set ms \<inter> fst ` set delay_data = {}"
  shows "parse_machines L files ms offset_data delay_data =
     (concat (map (host_block L files) ms),
      offset_data @ map (\<lambda>m. (fst m, fst (host_data files (snd m)))) (filter (host_ok files) ms),
      delay_data @ map (\<lambda>m. (fst m, snd (host_data files (snd m)))) (filter (host_ok files) ms))"
  using assms
proof (induction ms arbitrary: offset_data delay_data)
  case Nil
  show ?case by simp
next
  case (Cons m ms)
  obtain name path where m: "m = (name, path)" by (cases m)
  have fresh: "name \<notin> fst ` set offset_data" "name \<notin> fst ` set delay_data"
    using Cons.prems(2,3) m by auto
  have d: "distinct (map fst ms)" and nin: "name \<notin> fst ` set ms"
    using Cons.prems(1) m by auto
  show ?case
  proof (cases "host_ok files (name, path)")
    case True
    obtain offs dels where hd: "host_data files path = (offs, dels)"
      by (cases "host_data files path")
    have i1: "fst ` set ms \<inter> fst ` set (offset_data @ [(name, offs)]) = {}"
      using Cons.prems(2) nin by auto
    have i2: "fst ` set ms \<inter> fst ` set (delay_data @ [(name, dels)]) = {}"
      using Cons.prems(3) nin by auto
    show ?thesis
      using True Cons.IH [OF d i1 i2]
      by (simp add: m unpack_parse_file hd update_fresh fresh host_block_ok)
  next
    case False
    have i1: "fst ` set ms \<inter> fst ` set offset_data = {}"
      using Cons.prems(2) by auto
    have i2: "fst ` set ms \<inter> fst ` set delay_data = {}"
      using Cons.prems(3) by auto
    show ?thesis
      using False Cons.IH [OF d i1 i2]
      by (simp add: m unpack_parse_file host_block_failed)
  qed
qed

lemma machines_distinct: "distinct (map fst (machines dir))"
  by (simp add: machines_def)

lemma machines_log_file: "m \<in> set (machines dir) \<Longrightarrow> snd m = log_file dir (fst m)"
  by (auto simp: machines_def log_file_def lower_hosts)

lemma map_of_filtered:
  "distinct (map fst ms) \<Longrightarrow> m \<in> set ms \<Longrightarrow> P m \<Longrightarrow>
   map_of (map (\<lambda>m. (fst m, g m)) (filter P ms)) (fst m) = Some (g m)"
proof (induction ms)
  case Nil
  then show ?case by simp
next
  case (Cons a ms)
  then show ?case by (cases "a = m") (auto simp: image_iff)
qed

lemma ok_hosts_lookup:
  assumes "n \<in> set (ok_hosts files dir)"
  shows "map_of (map (\<lambda>m. (fst m, g (host_data files (snd m)))) (filter (host_ok files) (machines dir))) n
     = Some (g (host_data files (log_file dir n)))"
proof -
  obtain m where m: "m \<in> set (machines dir)" "host_ok files m" "fst m = n"
    using assms by (auto simp: ok_hosts_def)
  have "map_of (map (\<lambda>m. (fst m, g (host_data files (snd m)))) (filter (host_ok files) (machines dir))) (fst m)
          = Some (g (host_data files (snd m)))"
    using machines_distinct m(1,2) by (rule map_of_filtered)
  then show ?thesis using m(3) machines_log_file [OF m(1)] by simp
qed

lemma compare_all_ok:
  assumes "\<forall>n \<in> set ns. map_of co n = Some (fco n) \<and> map_of cd n = Some (fcd n)
                \<and> map_of eo n = Some (feo n) \<and> map_of ed n = Some (fed n)"
  shows "compare_all L ns co cd eo ed =
     (concat (map (\<lambda>n.
        [Print (''Comparing Control vs Experimental for '' @ n @ '' Offsets:''), Print []]
        @ fst (run_mannwhiteneyu_test L (fco n) (feo n) (n @ '' Offsets''))
        @ [Print [], Print (''Comparing Control vs Experimental for '' @ n @ '' Delays:'')]
        @ fst (run_mannwhiteneyu_test L (fcd n) (fed n) (n @ '' Delays''))
        @ [Print []]) ns),
      Inr ())"
  using assms
proof (induction ns)
  case Nil
  show ?case by (simp add: ret_def)
next
  case (Cons n ns)
  then show ?case
    by (simp add: getitem_def then_c_ok run_mannwhiteneyu_test_ok)
qed

text \<open>The comparison loop raises nothing but \<open>KeyError\<close>.\<close>

lemma compare_all_errors:
  "snd (compare_all L ns co cd eo ed) = Inr () \<or> (\<exists>k. snd (compare_all L ns co cd eo ed) = Inl (KeyError k))"
proof (induction ns)
  case Nil
  show ?case by simp
next
  case (Cons n ns)
  then show ?case
    by (auto simp: getitem_def then_c_ok run_mannwhiteneyu_test_ok raise_def split: option.splits)
qed

lemma main_unfolded:
  "main L files control (Some experimental) =
     bind_c (concat (map (host_block L files) (machines control))
             @ concat (map (host_block L files) (machines experimental)), Inr ())
       (\<lambda>_. compare_all L (ok_hosts files control)
          (map (\<lambda>m. (fst m, fst (host_data files (snd m)))) (filter (host_ok files) (machines control)))
          (map (\<lambda>m. (fst m, snd (host_data files (snd m)))) (filter (host_ok files) (machines control)))
          (map (\<lambda>m. (fst m, fst (host_data files (snd m)))) (filter (host_ok files) (machines experimental)))
          (map (\<lambda>m. (fst m, snd (host_data files (snd m)))) (filter (host_ok files) (machines experimental))))"
  by (simp add: main_def parse_machines_result machines_distinct ok_hosts_def comp_def)

lemma main_control_only:
  "main L files control None = (concat (map (host_block L files) (machines control)), Inr ())"
  by (simp add: main_def parse_machines_result machines_distinct)

section \<open>The runs of the Comparator in a trace\<close>

lemma mw_header_is: "is_mw_header (mw_header label)"
  by (simp add: is_mw_header_def mw_header_def tab_def)

lemma no_mw_in_report:
  assumes "offsets \<noteq> []" and "delays \<noteq> []"
  shows "filter is_mw_header (fst (report L name offsets delays)) = []"
  unfolding report_unfolded [OF assms]
  using assms
  by (simp add: print_stats_nonempty create_plot_nonempty run_shapiro_wilk_def is_mw_header_def
        tab_def newline_def split: prod.splits)

lemma no_mw_in_parse_file: "filter is_mw_header (fst (parse_file L files path name)) = []"
proof (cases "files path")
  case (Inl f)
  then show ?thesis by (simp add: parse_file_cases)
next
  case (Inr lines)
  show ?thesis
  proof (cases "matches lines = []")
    case True
    then show ?thesis using Inr by (simp add: parse_file_cases is_mw_header_def tab_def)
  next
    case False
    then have "fst (scan_lines lines [] []) \<noteq> []" "snd (scan_lines lines [] []) \<noteq> []"
      by (simp_all add: scan_lines_acc)
    then show ?thesis using Inr False by (simp add: parse_file_effects no_mw_in_report)
  qed
qed

lemma no_mw_in_host_block:
  assumes "m \<in> set (machines dir)"
  shows "filter is_mw_header (host_block L files m) = []"
proof -
  have n: "\<not> is_mw_header (Print (fst m))"
    using assms by (auto simp: machines_def is_mw_header_def tab_def)
  show ?thesis
    using n
    by (simp add: host_block_def no_mw_in_parse_file is_mw_header_def tab_def split: sum.splits)
qed

lemma no_mw_in_host_blocks:
  "filter is_mw_header (concat (map (host_block L files) (machines dir))) = []"
  by (simp add: filter_concat no_mw_in_host_block comp_def concat_eq_Nil_conv)

lemma mw_in_run:
  "filter is_mw_header (fst (run_mannwhiteneyu_test L data1 data2 label)) = [mw_header label]"
  by (simp add: run_mannwhiteneyu_test_def is_mw_header_def mw_header_def tab_def
        split: prod.splits)

lemma mw_in_compare_block:
  "filter is_mw_header (compare_block L files control experimental n)
     = [mw_header (n @ '' Offsets''), mw_header (n @ '' Delays'')]"
  by (simp add: compare_block_def mw_in_run) (simp add: is_mw_header_def tab_def)

lemma mw_in_compare_blocks:
  "filter is_mw_header (concat (map (compare_block L files control experimental) ns))
     = concat (map (\<lambda>n. [mw_header (n @ '' Offsets''), mw_header (n @ '' Delays'')]) ns)"
  by (induction ns) (simp_all add: mw_in_compare_block)

text \<open>
  What \<open>main\<close> does with an experimental directory. Every host of both directories is
  parsed, a failed parse leaving its error in the host's block of the trace. The
  Comparator then runs for the hosts whose control parse succeeded: when each of them has
  a successful experimental parse too, \<open>main\<close> returns normally, and the Comparator has run
  once on the offsets and once on the delays of each of them, in the order of the host
  list, on the sequences of the two parses.
\<close>

lemma comparisons_for_parsed_hosts:
  "prefix (concat (map (host_block L files) (machines control))
           @ concat (map (host_block L files) (machines experimental)))
          (fst (main L files control (Some experimental)))
   \<and> (set (ok_hosts files control) \<subseteq> set (ok_hosts files experimental) \<longrightarrow>
        main L files control (Some experimental) =
          (concat (map (host_block L files) (machines control))
           @ concat (map (host_block L files) (machines experimental))
           @ concat (map (compare_block L files control experimental) (ok_hosts files control)),
           Inr ())
        \<and> comparator_runs (fst (main L files control (Some experimental))) =
            concat (map (\<lambda>n. [mw_header (n @ '' Offsets''), mw_header (n @ '' Delays'')])
                      (ok_hosts files control)))"
proof (intro conjI impI)
  show "prefix (concat (map (host_block L files) (machines control))
           @ concat (map (host_block L files) (machines experimental)))
          (fst (main L files control (Some experimental)))"
    by (simp add: main_unfolded)
next
  assume sub: "set (ok_hosts files control) \<subseteq> set (ok_hosts files experimental)"
  have look: "\<forall>n \<in> set (ok_hosts files control).
      map_of (map (\<lambda>m. (fst m, fst (host_data files (snd m)))) (filter (host_ok files) (machines control))) n
        = Some (fst (host_data files (log_file control n)))
    \<and> map_of (map (\<lambda>m. (fst m, snd (host_data files (snd m)))) (filter (host_ok files) (machines control))) n
        = Some (snd (host_data files (log_file control n)))
    \<and> map_of (map (\<lambda>m. (fst m, fst (host_data files (snd m)))) (filter (host_ok files) (machines experimental))) n
        = Some (fst (host_data files (log_file experimental n)))
    \<and> map_of (map (\<lambda>m. (fst m, snd (host_data files (snd m)))) (filter (host_ok files) (machines experimental))) n
        = Some (snd (host_data files (log_file experimental n)))"
    using sub by (auto intro: ok_hosts_lookup)
  show eq: "main L files control (Some experimental) =
          (concat (map (host_block L files) (machines control))
           @ concat (map (host_block L files) (machines experimental))
           @ concat (map (compare_block L files control experimental) (ok_hosts files control)),
           Inr ())"
    unfolding main_unfolded compare_all_ok [OF look]
    by (simp add: compare_block_def [abs_def])
  show "comparator_runs (fst (main L files control (Some experimental))) =
            concat (map (\<lambda>n. [mw_header (n @ '' Offsets''), mw_header (n @ '' Delays'')])
                      (ok_hosts files control))"
    unfolding eq comparator_runs_def
    by (simp add: no_mw_in_host_blocks mw_in_compare_blocks)
qed

lemma ok_machines_control:
  "filter (host_ok example_files) (machines ''control'')
     = [(''Beta'', ''control/beta.log''), (''Charlie'', ''control/charlie.log'')]"
  by (simp add: machines_def os_path_join_def host_ok_def example_files_def matches_examples
        scan_examples limits_ok_examples del: scan_lines.simps)

lemma ok_machines_experimental:
  "filter (host_ok example_files) (machines ''experimental'')
     = [(''Charlie'', ''experimental/charlie.log'')]"
  by (simp add: machines_def os_path_join_def host_ok_def example_files_def matches_examples
        scan_examples limits_ok_examples del: scan_lines.simps)

lemma ok_machines_rerun:
  "filter (host_ok example_files) (machines ''rerun'')
     = [(''Beta'', ''rerun/beta.log''), (''Charlie'', ''rerun/charlie.log'')]"
  by (simp add: machines_def os_path_join_def host_ok_def example_files_def matches_examples
        scan_examples limits_ok_examples del: scan_lines.simps)

lemma comparisons_for_parsed_hosts_example:
  "set (ok_hosts example_files ''control'') \<subseteq> set (ok_hosts example_files ''rerun'')
   \<and> ok_hosts example_files ''control'' = [''Beta'', ''Charlie'']
   \<and> snd (main (example_lib NaN) example_files ''control'' (Some ''rerun'')) = Inr ()
   \<and> comparator_runs (fst (main (example_lib NaN) example_files ''control'' (Some ''rerun'')))
       = [mw_header ''Beta Offsets'', mw_header ''Beta Delays'',
          mw_header ''Charlie Offsets'', mw_header ''Charlie Delays'']"
proof -
  have c: "ok_hosts example_files ''control'' = [''Beta'', ''Charlie'']"
    by (simp add: ok_hosts_def ok_machines_control)
  have s: "set (ok_hosts example_files ''control'') \<subseteq> set (ok_hosts example_files ''rerun'')"
    by (simp add: ok_hosts_def ok_machines_control ok_machines_rerun)
  note t = comparisons_for_parsed_hosts [of "example_lib NaN" example_files "''control''" "''rerun''",
      THEN conjunct2, rule_format, OF s]
  have ok: "snd (main (example_lib NaN) example_files ''control'' (Some ''rerun'')) = Inr ()"
    by (simp add: t [THEN conjunct1])
  have runs: "comparator_runs (fst (main (example_lib NaN) example_files ''control'' (Some ''rerun'')))
       = [mw_header ''Beta Offsets'', mw_header ''Beta Delays'',
          mw_header ''Charlie Offsets'', mw_header ''Charlie Delays'']"
    unfolding t [THEN conjunct2] c by simp
  show ?thesis using s c ok runs by simp
qed

lemma ok_hosts_examples:
  "ok_hosts example_files ''control'' = [''Beta'', ''Charlie'']"
  "ok_hosts example_files ''experimental'' = [''Charlie'']"
  "ok_hosts example_files ''rerun'' = [''Beta'', ''Charlie'']"
  by (simp_all add: ok_hosts_def ok_machines_control ok_machines_experimental ok_machines_rerun)

lemma main_example_key_error:
  "main (example_lib NaN) example_files ''control'' (Some ''experimental'') =
      (concat (map (host_block (example_lib NaN) example_files) (machines ''control''))
       @ concat (map (host_block (example_lib NaN) example_files) (machines ''experimental''))
       @ [Print ''Comparing Control vs Experimental for Beta Offsets:'', Print []],
       Inl (KeyError ''Beta''))"
  by (simp add: main_unfolded ok_hosts_examples ok_machines_control ok_machines_experimental
        getitem_def)

text \<open>
  C1 says that no failure of a host ends the comparisons and that the Comparator runs for
  every host. The code does not do that. In the example directories Beta and Charlie have
  control data and only Charlie has experimental data: the parse loops catch and print
  the errors of the hosts, but the lookup of Beta in the experimental dictionary raises
  \<open>KeyError\<close>, nothing catches it, \<open>main\<close> ends with that exception, and the Comparator
  has not run at all, not even for Charlie, whose two parses succeeded.
\<close>

theorem missing_experimental_host_ends_run:
  "ok_hosts example_files ''control'' = [''Beta'', ''Charlie'']
   \<and> ok_hosts example_files ''experimental'' = [''Charlie'']
   \<and> main (example_lib NaN) example_files ''control'' (Some ''experimental'')
       = (concat (map (host_block (example_lib NaN) example_files) (machines ''control''))
          @ concat (map (host_block (example_lib NaN) example_files) (machines ''experimental''))
          @ [Print ''Comparing Control vs Experimental for Beta Offsets:'', Print []],
          Inl (KeyError ''Beta''))
   \<and> comparator_runs (fst (main (example_lib NaN) example_files ''control'' (Some ''experimental'')))
       = []"
proof -
  have r: "comparator_runs (fst (main (example_lib NaN) example_files ''control'' (Some ''experimental''))) = []"
    unfolding main_example_key_error comparator_runs_def
    by (simp add: no_mw_in_host_blocks) (simp add: is_mw_header_def tab_def)
  show ?thesis using r by (simp add: ok_hosts_examples main_example_key_error)
qed

section \<open>The command line\<close>

lemma script_usage_iff:
  "script L files argv = ([Print usage], Exited 1) \<longleftrightarrow> length argv < 2 \<or> 4 < length argv"
  by (auto simp: script_def outcome_of_def split: prod.splits sum.splits)

text \<open>
  With three arguments the run of the example directories ends with the uncaught
  \<open>KeyError\<close>, hence with status 1 and no usage line.
\<close>

lemma three_arguments_key_error:
  "snd (script (example_lib NaN) example_files [''main.py'', ''control'', ''experimental''])
     = Uncaught (KeyError ''Beta'')
   \<and> exit_code (snd (script (example_lib NaN) example_files [''main.py'', ''control'', ''experimental''])) = 1"
  by (simp add: script_def main_example_key_error outcome_of_def)

text \<open>
  C2 fails for four arguments. The guard lets them through: the script runs \<open>main\<close> on the
  second and third and ignores the fourth. With no log file at all, that run prints no
  usage line and ends with status 0.
\<close>

theorem four_arguments_run_main:
  "script L files [a0, a1, a2, a3] = outcome_of (main L files a1 (Some a2))
   \<and> snd (script L no_files [''main.py'', ''control'', ''experimental'', ''extra'']) = Completed
   \<and> exit_code (snd (script L no_files [''main.py'', ''control'', ''experimental'', ''extra''])) = 0
   \<and> Print usage \<notin> set (fst (script L no_files [''main.py'', ''control'', ''experimental'', ''extra'']))"
proof -
  have n: "filter (host_ok no_files) ms = []" for ms
    by (induction ms) (simp_all add: host_ok_def no_files_def)
  have m: "main L no_files ''control'' (Some ''experimental'') =
      (concat (map (host_block L no_files) (machines ''control''))
       @ concat (map (host_block L no_files) (machines ''experimental'')), Inr ())"
    by (simp add: main_unfolded ok_hosts_def n)
  have u: "Print usage \<notin> set (host_block L no_files x)" if "x \<in> set (machines dir)" for x dir
    using that
    by (auto simp: machines_def host_block_def unpack_parse_file host_ok_def host_error_def
          parse_file_cases usage_def no_files_def no_such_file_def)
  show ?thesis
    by (simp add: script_def m outcome_of_def u)
qed

section \<open>Plots and empty data\<close>

lemma error_of_not_ValueError: "error_of f \<noteq> ValueError m"
  by (cases f) simp_all

lemma parse_file_raises:
  "snd (parse_file L files path name) = Inl e \<Longrightarrow>
   (\<exists>f. files path = Inl f \<and> e = error_of f) \<or> e = ValueError ''Axis limits cannot be NaN or Inf''"
  by (cases "files path") (simp_all add: parse_file_result split: if_splits)

lemma parse_file_errors:
  "snd (parse_file L files path name)
     \<noteq> Inl (ValueError ''zero-size array to reduction operation maximum which has no identity'')"
  "snd (parse_file L files path name)
     \<noteq> Inl (ValueError ''zero-size array to reduction operation minimum which has no identity'')"
  by (cases "files path"; simp add: parse_file_result error_of_not_ValueError)+

lemma main_errors:
  "snd (main L files control experimental) = Inr ()
   \<or> (\<exists>k. snd (main L files control experimental) = Inl (KeyError k))"
proof (cases experimental)
  case None
  then show ?thesis by (simp add: main_control_only)
next
  case (Some e)
  then show ?thesis
    using compare_all_errors by (simp add: main_unfolded)
qed

lemma script_errors: "snd (script L files argv) \<noteq> Uncaught (ValueError m)"
proof -
  have "snd (outcome_of c) \<noteq> Uncaught (ValueError m)"
    if "snd c = Inr () \<or> (\<exists>k. snd c = Inl (KeyError k))" for c :: "unit comp"
    using that by (cases c) (auto simp: outcome_of_def)
  then show ?thesis
    using main_errors by (simp add: script_def)
qed

lemma plots_in_parse_file:
  assumes "files path = Inr lines"
    and "e \<in> set (fst (parse_file L files path name))" and "\<not> is_print e"
  shows "fst (scan_lines lines [] []) \<noteq> [] \<and> snd (scan_lines lines [] []) \<noteq> []
     \<and> (\<forall>f t data lo hi. e = SavePlot f t data lo hi \<longrightarrow> data \<noteq> [])"
proof (cases "matches lines = []")
  case True
  then show ?thesis using assms by (simp add: parse_file_cases is_print_def)
next
  case False
  then have ne: "fst (scan_lines lines [] []) \<noteq> []" "snd (scan_lines lines [] []) \<noteq> []"
    by (simp_all add: scan_lines_acc)
  have "e \<in> set (fst (report L name (fst (scan_lines lines [] [])) (snd (scan_lines lines [] []))))"
    using assms(1,2) False by (simp add: parse_file_effects)
  from report_effects [OF ne this] assms(3) ne show ?thesis by auto
qed

text \<open>
  C10. \<open>create_plot\<close> on an empty sequence raises the \<open>ValueError\<close> of \<open>np.max\<close> on a zero-size
  array. That never happens in the program: \<open>parse_file\<close> reaches the plot functions (whose
  first effect is the \<open>makedirs\<close> call) only when both sequences of the file are non-empty,
  every plot it saves is of a non-empty sequence, \<open>parse_file\<close> never raises the zero-size
  error of \<open>np.max\<close> or \<open>np.min\<close>, and no run of the script ends with it.
\<close>

theorem plots_only_on_data:
  "snd (create_plot [] device_name plot_type)
     = Inl (ValueError ''zero-size array to reduction operation maximum which has no identity'')
   \<and> snd (parse_file L files path name)
       \<noteq> Inl (ValueError ''zero-size array to reduction operation maximum which has no identity'')
   \<and> snd (parse_file L files path name)
       \<noteq> Inl (ValueError ''zero-size array to reduction operation minimum which has no identity'')
   \<and> (files path = Inr lines \<longrightarrow>
        (MakeDirs d \<in> set (fst (parse_file L files path name))
         \<or> SavePlot f t data lo hi \<in> set (fst (parse_file L files path name))) \<longrightarrow>
        fst (scan_lines lines [] []) \<noteq> [] \<and> snd (scan_lines lines [] []) \<noteq> [])
   \<and> (SavePlot f t data lo hi \<in> set (fst (parse_file L files path name)) \<longrightarrow> data \<noteq> [])
   \<and> snd (script L files argv)
       \<noteq> Uncaught (ValueError ''zero-size array to reduction operation maximum which has no identity'')
   \<and> snd (script L files argv)
       \<noteq> Uncaught (ValueError ''zero-size array to reduction operation minimum which has no identity'')"
proof (intro conjI impI)
  show "snd (create_plot [] device_name plot_type)
     = Inl (ValueError ''zero-size array to reduction operation maximum which has no identity'')"
    by (simp add: create_plot_empty)
  show "snd (parse_file L files path name)
       \<noteq> Inl (ValueError ''zero-size array to reduction operation maximum which has no identity'')"
    by (rule parse_file_errors)
  show "snd (parse_file L files path name)
       \<noteq> Inl (ValueError ''zero-size array to reduction operation minimum which has no identity'')"
    by (rule parse_file_errors)
  show "snd (script L files argv)
       \<noteq> Uncaught (ValueError ''zero-size array to reduction operation maximum which has no identity'')"
    by (rule script_errors)
  show "snd (script L files argv)
       \<noteq> Uncaught (ValueError ''zero-size array to reduction operation minimum which has no identity'')"
    by (rule script_errors)
next
  assume f: "files path = Inr lines"
    and "MakeDirs d \<in> set (fst (parse_file L files path name))
         \<or> SavePlot f t data lo hi \<in> set (fst (parse_file L files path name))"
  then obtain e where "e \<in> set (fst (parse_file L files path name))" "\<not> is_print e"
    by (auto simp: is_print_def)
  from plots_in_parse_file [OF f this]
  show "fst (scan_lines lines [] []) \<noteq> []" and "snd (scan_lines lines [] []) \<noteq> []"
    by simp_all
next
  assume s: "SavePlot f t data lo hi \<in> set (fst (parse_file L files path name))"
  then obtain ls where f: "files path = Inr ls"
    by (cases "files path") (simp_all add: parse_file_cases)
  have "\<not> is_print (SavePlot f t data lo hi)" by (simp add: is_print_def)
  from plots_in_parse_file [OF f s this] show "data \<noteq> []" by simp
qed

lemma dirname_examples:
  "os_path_dirname ''plots/charlie-offset.png'' = ''plots''"
  "os_path_dirname ''plots/charlie-delay.png'' = ''plots''"
  by code_simp+

theorem plots_only_on_data_witness:
  "example_files ''control/charlie.log'' = Inr [literal_line]
   \<and> MakeDirs ''plots''
       \<in> set (fst (parse_file (example_lib NaN) example_files ''control/charlie.log'' ''Charlie''))
   \<and> SavePlot ''plots/charlie-offset.png'' ''Charlie Offset'' [Finite 10] (Finite 10) (Finite 10)
       \<in> set (fst (parse_file (example_lib NaN) example_files ''control/charlie.log'' ''Charlie''))
   \<and> fst (scan_lines [literal_line] [] []) \<noteq> [] \<and> snd (scan_lines [literal_line] [] []) \<noteq> []
   \<and> [Finite 10] \<noteq> ([] :: pyfloat list)"
proof -
  have f: "example_files ''control/charlie.log'' = Inr [literal_line]"
    by (simp add: example_files_def)
  have r: "fst (parse_file (example_lib NaN) example_files ''control/charlie.log'' ''Charlie'')
      = fst (report (example_lib NaN) ''Charlie'' [Finite 10] [Finite 20])"
    using parse_file_effects [where files = example_files and path = "''control/charlie.log''"
        and lines = "[literal_line]" and L = "example_lib NaN" and name = "''Charlie''", OF f]
    by (simp add: matches_examples scan_examples del: scan_lines.simps)
  have p: "SavePlot ''plots/charlie-offset.png'' ''Charlie Offset'' [Finite 10] (Finite 10) (Finite 10)
       \<in> set (fst (parse_file (example_lib NaN) example_files ''control/charlie.log'' ''Charlie''))"
    unfolding r
    by (simp add: report_unfolded create_plot_nonempty limits_ok_examples lower_hosts)
  have d: "MakeDirs ''plots''
       \<in> set (fst (parse_file (example_lib NaN) example_files ''control/charlie.log'' ''Charlie''))"
    unfolding r
    by (simp add: report_unfolded create_plot_nonempty limits_ok_examples lower_hosts dirname_examples)
  note t = plots_only_on_data [where files = example_files and path = "''control/charlie.log''"
      and lines = "[literal_line]" and L = "example_lib NaN" and name = "''Charlie''"
      and d = "''plots''" and f = "''plots/charlie-offset.png''" and t = "''Charlie Offset''"
      and data = "[Finite 10]" and lo = "Finite 10" and hi = "Finite 10"]
  from t f d p show ?thesis by simp
qed

section \<open>A capture that overflows\<close>

text \<open>
  A capture of 310 digits is a match like any other, \<open>float\<close> makes it an infinity, and
  the plot of the host then fails in \<open>plt.ylim\<close>: the parse of that host ends with a
  \<open>ValueError\<close>, which \<open>main\<close> prints like the other errors of a host.
\<close>

lemma nat_of_digits_snoc: "nat_of_digits (ds @ [c]) = 10 * nat_of_digits ds + digit_val c"
  by (simp add: nat_of_digits_def)

lemma nat_of_digits_zeros: "nat_of_digits (ds @ replicate n (CHR ''0'')) = nat_of_digits ds * 10 ^ n"
proof (induction n)
  case 0
  show ?case by simp
next
  case (Suc n)
  have "ds @ replicate (Suc n) (CHR ''0'') = (ds @ replicate n (CHR ''0'')) @ [CHR ''0'']"
    by (simp add: replicate_append_same)
  then show ?case using Suc by (simp only: nat_of_digits_snoc) (simp add: digit_val_def code_def)
qed

lemma round_binary64_overflow:
  assumes "2 ^ 1024 \<le> m"
  shows "round_binary64 m = None"
proof -
  let ?fl = "floorlog 2 m"
  let ?e = "floorlog 2 m - 53"
  let ?q = "m div 2 ^ ?e"
  have p0: "(0::nat) < 2 ^ 1024" by (rule zero_less_power) (rule zero_less_numeral)
  have pos: "0 < m" using assms p0 by (rule less_le_trans [rotated])
  have b1: "2 ^ (?fl - 1) \<le> m" and b2: "m < 2 ^ ?fl"
    using floorlog_bounds [of m 2, OF pos] by simp_all
  have "(2::nat) ^ 1024 < 2 ^ ?fl" using assms b2 by (rule le_less_trans)
  then have fl: "1024 < ?fl"
    by (rule power_less_imp_less_exp [rotated]) simp
  have s: "?fl - 1 = 52 + ?e" using fl by linarith
  have p: "(2::nat) ^ (?fl - 1) = 2 ^ 52 * 2 ^ ?e" by (simp only: s power_add)
  have "(2::nat) ^ 52 * 2 ^ ?e \<le> m" using b1 by (simp only: p)
  then have q: "2 ^ 52 \<le> ?q"
    by (simp only: less_eq_div_iff_mult_less_eq zero_less_power zero_less_numeral)
  have "1024 \<le> ?fl - 1" using fl by linarith
  then have "(2::nat) ^ 1024 \<le> 2 ^ (?fl - 1)"
    by (rule power_increasing) simp
  also have "\<dots> = 2 ^ 52 * 2 ^ ?e" by (rule p)
  also have "\<dots> \<le> ?q * 2 ^ ?e" using q by (rule mult_le_mono1)
  finally have low: "2 ^ 1024 \<le> ?q * 2 ^ ?e" .
  have "?q * 2 ^ ?e \<le> (?q + 1) * 2 ^ ?e" by (rule mult_le_mono1) (rule le_add1)
  with low have up: "2 ^ 1024 \<le> (?q + 1) * 2 ^ ?e" by (rule le_trans)
  have aux: "2 ^ 1024 \<le> (if c then ?q + 1 else ?q) * 2 ^ ?e" for c
    by (cases c) (simp_all only: if_True if_False low up)
  have "(2::nat) ^ 53 \<le> 2 ^ 1024" by (rule power_increasing) simp_all
  with assms have "2 ^ 53 \<le> m" by (rule le_trans [rotated])
  then have big: "\<not> m < 2 ^ 53" by (simp only: not_less)
  show ?thesis
    by (simp only: round_binary64_def Let_def big if_False aux if_True)
qed

lemma search_huge_line:
  "search huge_line = Some (CHR ''1'' # replicate 309 (CHR ''0''), ''5'', ''20'')"
  unfolding huge_line_def by code_simp

lemma py_float_huge: "py_float (CHR ''1'' # replicate 309 (CHR ''0'')) = PInf"
proof -
  have "nat_of_digits (''1'' @ replicate 309 (CHR ''0'')) = nat_of_digits ''1'' * 10 ^ 309"
    by (rule nat_of_digits_zeros)
  moreover have "nat_of_digits ''1'' = 1"
    by (simp add: nat_of_digits_def digit_val_def code_def)
  moreover have "''1'' @ replicate 309 (CHR ''0'') = CHR ''1'' # replicate 309 (CHR ''0'')"
    by (simp only: append.simps)
  ultimately have n: "nat_of_digits (CHR ''1'' # replicate 309 (CHR ''0'')) = 10 ^ 309"
    by (simp only: mult_1)
  have "(2::nat) ^ 1024 \<le> 10 ^ 309" by simp
  then have r: "round_binary64 (10 ^ 309) = None" by (rule round_binary64_overflow)
  have "py_float (CHR ''1'' # replicate 309 (CHR ''0''))
      = float_of_magnitude False (CHR ''1'' # replicate 309 (CHR ''0''))"
    by (simp only: py_float.simps) simp
  also have "\<dots> = PInf"
    by (simp only: float_of_magnitude_def n r option.case if_False)
  finally show ?thesis .
qed

lemma huge_capture_fails_plot:
  "snd (parse_file L huge_files ''control/beta.log'' ''Beta'')
     = Inl (ValueError ''Axis limits cannot be NaN or Inf'')
   \<and> \<not> host_ok huge_files (''Beta'', ''control/beta.log'')
   \<and> host_error huge_files ''control/beta.log'' = ValueError ''Axis limits cannot be NaN or Inf''"
proof -
  have m: "matches [huge_line] = [(CHR ''1'' # replicate 309 (CHR ''0''), ''5'', ''20'')]"
    by (simp add: matches_def search_huge_line)
  have s: "scan_lines [huge_line] [] [] = ([PInf], [Finite 20])"
    by (simp add: scan_lines_acc m py_float_huge py_float_20 del: py_float.simps scan_lines.simps)
  have l: "\<not> limits_ok [PInf]" by (simp add: limits_ok_def)
  show ?thesis
    by (simp add: parse_file_result host_ok_def host_error_def huge_files_def m s l
          del: scan_lines.simps)
qed

section \<open>The captures are numeric\<close>

text \<open>
  Whatever the line, the first two captures of a match are an optional sign followed by
  digits and the third is digits, so \<open>py_float\<close> is only applied inside its domain.
\<close>

lemma first_some_SomeD: "first_some f xs = Some y \<Longrightarrow> \<exists>x \<in> set xs. f x = Some y"
  by (induction xs) (auto split: option.splits)

lemma plus_SomeD:
  assumes "match_here (Plus c # p) s i = Some r"
  shows "\<exists>k. 1 \<le> k \<and> k \<le> length s \<and> list_all (in_class c) (take k s)
           \<and> match_here p (drop k s) (i + k) = Some r"
proof -
  have "first_some (\<lambda>k. match_here p (drop k s) (i + k))
          (rev [1 ..< Suc (length (takeWhile (in_class c) s))]) = Some r"
    using assms by simp
  from first_some_SomeD [OF this]
  obtain k where k: "k \<in> set (rev [1 ..< Suc (length (takeWhile (in_class c) s))])"
      and m: "match_here p (drop k s) (i + k) = Some r"
    by blast
  have le: "1 \<le> k" "k \<le> length (takeWhile (in_class c) s)" using k by auto
  have "take k s = take k (takeWhile (in_class c) s)"
    using le(2) by (metis append_eq_conv_conj append_take_drop_id takeWhile_dropWhile_id take_append min.absorb2 length_take nat_le_linear take_all)
  then have "list_all (in_class c) (take k s)"
    by (metis in_set_takeD list_all_iff set_takeWhileD)
  moreover have "k \<le> length s" using le(2) length_takeWhile_le [of "in_class c" s] by linarith
  ultimately show ?thesis using le(1) m by blast
qed

lemma groupless_append_SomeD:
  "groupless p \<Longrightarrow> match_here (p @ q) s i = Some r \<Longrightarrow>
   \<exists>n. n \<le> length s \<and> match_here q (drop n s) (i + n) = Some r"
proof (induction p arbitrary: s i)
  case Nil
  then show ?case by (intro exI [of _ 0]) simp
next
  case (Cons it p)
  have g: "groupless p" using Cons.prems(1) by (simp add: groupless_def)
  show ?case
  proof (cases it)
    case (Single c)
    with Cons.prems(2) obtain x xs where s: "s = x # xs" and m: "match_here (p @ q) xs (Suc i) = Some r"
      by (cases s) (auto split: if_splits)
    from Cons.IH [OF g m] obtain n where "n \<le> length xs" "match_here q (drop n xs) (Suc i + n) = Some r"
      by blast
    then show ?thesis using s by (intro exI [of _ "Suc n"]) simp
  next
    case (Plus c)
    with Cons.prems(2) have "match_here (Plus c # (p @ q)) s i = Some r" by simp
    from plus_SomeD [OF this] obtain k where k: "k \<le> length s"
        and m: "match_here (p @ q) (drop k s) (i + k) = Some r" by blast
    from Cons.IH [OF g m] obtain n where "n \<le> length (drop k s)"
        "match_here q (drop n (drop k s)) (i + k + n) = Some r" by blast
    then have "k + n \<le> length s" "match_here q (drop (k + n) s) (i + (k + n)) = Some r"
      using k by (simp_all add: ac_simps)
    then show ?thesis by blast
  next
    case (Opt c)
    with Cons.prems(2) consider "match_here (p @ q) s i = Some r"
      | x xs where "s = x # xs" "match_here (p @ q) xs (Suc i) = Some r"
      by (cases s) (auto split: if_splits option.splits)
    then show ?thesis
    proof cases
      case 1
      from Cons.IH [OF g 1] show ?thesis .
    next
      case 2
      from Cons.IH [OF g 2(2)] obtain n where "n \<le> length xs" "match_here q (drop n xs) (Suc i + n) = Some r"
        by blast
      then show ?thesis using 2(1) by (intro exI [of _ "Suc n"]) simp
    qed
  next
    case GOpen
    then show ?thesis using Cons.prems(1) by (simp add: groupless_def)
  next
    case GClose
    then show ?thesis using Cons.prems(1) by (simp add: groupless_def)
  qed
qed


lemma digit_not_sign: "is_digit c \<Longrightarrow> c \<noteq> CHR ''+'' \<and> c \<noteq> CHR ''-''"
  by (auto simp: is_digit_def code_def)

lemma digits_SomeD:
  assumes "match_here (Plus Digit # GClose # q) s i = Some r"
  shows "\<exists>k r'. r = (i + k) # r' \<and> 1 \<le> k \<and> k \<le> length s \<and> list_all is_digit (take k s)
           \<and> match_here q (drop k s) (i + k) = Some r'"
proof -
  from plus_SomeD [OF assms] obtain k where k: "1 \<le> k" "k \<le> length s"
      "list_all (in_class Digit) (take k s)"
      and m: "match_here (GClose # q) (drop k s) (i + k) = Some r"
    by blast
  from m obtain r' where "r = (i + k) # r'" "match_here q (drop k s) (i + k) = Some r'"
    by auto
  then show ?thesis using k by (auto simp: list_all_iff)
qed

lemma digits_group_SomeD:
  assumes "match_here ([GOpen, Plus Digit, GClose] @ q) s i = Some r"
  shows "\<exists>k r'. r = i # (i + k) # r' \<and> 1 \<le> k \<and> k \<le> length s \<and> list_all is_digit (take k s)
           \<and> match_here q (drop k s) (i + k) = Some r'"
proof -
  from assms obtain r0 where r: "r = i # r0" and m: "match_here (Plus Digit # GClose # q) s i = Some r0"
    by auto
  from digits_SomeD [OF m] r show ?thesis by blast
qed

lemma signed_digits_SomeD:
  assumes "match_here (signed_digits @ q) s i = Some r"
  shows "\<exists>n r'. r = i # (i + n) # r' \<and> n \<le> length s \<and> numeric_signed (take n s)
           \<and> match_here q (drop n s) (i + n) = Some r'"
proof -
  from assms obtain r0 where r: "r = i # r0"
      and m: "match_here (Opt (OneOf ''+-'') # Plus Digit # GClose # q) s i = Some r0"
    by (auto simp: signed_digits_def)
  from m consider (skip) "match_here (Plus Digit # GClose # q) s i = Some r0"
    | (sign) x xs where "s = x # xs" "x = CHR ''+'' \<or> x = CHR ''-''"
        "match_here (Plus Digit # GClose # q) xs (Suc i) = Some r0"
    by (cases s) (auto split: if_splits option.splits simp del: match_here.simps(4))
  then show ?thesis
  proof cases
    case skip
    from digits_SomeD [OF skip] obtain k r' where k: "r0 = (i + k) # r'" "1 \<le> k" "k \<le> length s"
        "list_all is_digit (take k s)" "match_here q (drop k s) (i + k) = Some r'"
      by blast
    obtain c cs where t: "take k s = c # cs"
      using k(2,3) by (cases "take k s") auto
    have "numeric_signed (take k s)"
      using k(4) digit_not_sign [of c] by (simp add: t)
    then show ?thesis using r k by blast
  next
    case sign
    from digits_SomeD [OF sign(3)] obtain k r' where k: "r0 = (Suc i + k) # r'" "1 \<le> k"
        "k \<le> length xs" "list_all is_digit (take k xs)"
        "match_here q (drop k xs) (Suc i + k) = Some r'"
      by blast
    have "take k xs \<noteq> []" using k(2,3) by (cases xs) auto
    then have "numeric_signed (take (Suc k) s)"
      using sign(1,2) k(4) by auto
    moreover have "match_here q (drop (Suc k) s) (i + Suc k) = Some r'"
      using k(5) sign(1) by simp
    moreover have "r = i # (i + Suc k) # r'" using r k(1) by simp
    moreover have "Suc k \<le> length s" using k(3) sign(1) by simp
    ultimately show ?thesis by blast
  qed
qed

lemma search_SomeD:
  assumes "search line = Some (a, f, d)"
  shows "\<exists>k a1 b1 a2 b2 a3 b3. match_here re_pattern (drop k line) k = Some [a1, b1, a2, b2, a3, b3]
           \<and> a = slice line a1 b1 \<and> f = slice line a2 b2 \<and> d = slice line a3 b3"
proof -
  from assms obtain caps where c: "first_some (\<lambda>k. match_here re_pattern (drop k line) k)
      [0 ..< Suc (length line)] = Some caps"
    by (cases "first_some (\<lambda>k. match_here re_pattern (drop k line) k) [0 ..< Suc (length line)]")
       (simp_all add: search_def)
  from assms c obtain a1 b1 a2 b2 a3 b3 where caps: "caps = [a1, b1, a2, b2, a3, b3]"
    and "a = slice line a1 b1" "f = slice line a2 b2" "d = slice line a3 b3"
    by (auto simp: search_def split: list.splits)
  moreover from first_some_SomeD [OF c] obtain k where "match_here re_pattern (drop k line) k = Some caps"
    by blast
  ultimately show ?thesis by blast
qed


lemma search_captures_numeric:
  assumes "search line = Some (a, f, d)"
  shows "numeric_signed a \<and> numeric_signed f \<and> d \<noteq> [] \<and> list_all is_digit d"
proof -
  let ?P1 = "lits ''ptp4l['' @ [Plus Digit] @ lits '']: ptp4l['' @ [Plus Digit, Single Dot, Plus Digit]
     @ lits '']: master offset'' @ [Plus Space]"
  let ?P2 = "[Plus Space] @ lits ''s2 freq'' @ [Plus Space]"
  let ?P3 = "[Plus Space] @ lits ''path delay'' @ [Plus Space]"
  let ?R2 = "?P3 @ ([GOpen, Plus Digit, GClose] @ [])"
  let ?R1 = "?P2 @ (signed_digits @ ?R2)"
  have g: "groupless ?P1" "groupless ?P2" "groupless ?P3"
    by (simp_all add: groupless_def lits_def)
  have p: "re_pattern = ?P1 @ (signed_digits @ ?R1)"
    by (simp add: re_pattern_def)
  from search_SomeD [OF assms] obtain k a1 b1 a2 b2 a3 b3
    where m: "match_here re_pattern (drop k line) k = Some [a1, b1, a2, b2, a3, b3]"
      and sl: "a = slice line a1 b1" "f = slice line a2 b2" "d = slice line a3 b3"
    by blast
  from m have "match_here (?P1 @ (signed_digits @ ?R1)) (drop k line) k = Some [a1, b1, a2, b2, a3, b3]"
    by (simp only: p)
  from groupless_append_SomeD [OF g(1) this] obtain n1
    where "match_here (signed_digits @ ?R1) (drop n1 (drop k line)) (k + n1) = Some [a1, b1, a2, b2, a3, b3]"
    by blast
  from signed_digits_SomeD [OF this] obtain m1 r1
    where c1: "[a1, b1, a2, b2, a3, b3] = (k + n1) # (k + n1 + m1) # r1"
      and s1: "numeric_signed (take m1 (drop n1 (drop k line)))"
      and k1: "match_here ?R1 (drop m1 (drop n1 (drop k line))) (k + n1 + m1) = Some r1"
    by blast
  from groupless_append_SomeD [OF g(2) k1] obtain n2
    where "match_here (signed_digits @ ?R2) (drop n2 (drop m1 (drop n1 (drop k line)))) (k + n1 + m1 + n2) = Some r1"
    by blast
  from signed_digits_SomeD [OF this] obtain m2 r2
    where c2: "r1 = (k + n1 + m1 + n2) # (k + n1 + m1 + n2 + m2) # r2"
      and s2: "numeric_signed (take m2 (drop n2 (drop m1 (drop n1 (drop k line)))))"
      and k2: "match_here ?R2 (drop m2 (drop n2 (drop m1 (drop n1 (drop k line))))) (k + n1 + m1 + n2 + m2) = Some r2"
    by blast
  from groupless_append_SomeD [OF g(3) k2] obtain n3
    where "match_here ([GOpen, Plus Digit, GClose] @ [])
             (drop n3 (drop m2 (drop n2 (drop m1 (drop n1 (drop k line))))))
             (k + n1 + m1 + n2 + m2 + n3) = Some r2"
    by blast
  from digits_group_SomeD [OF this] obtain m3 r3
    where c3: "r2 = (k + n1 + m1 + n2 + m2 + n3) # (k + n1 + m1 + n2 + m2 + n3 + m3) # r3"
      and s3: "1 \<le> m3" "m3 \<le> length (drop n3 (drop m2 (drop n2 (drop m1 (drop n1 (drop k line))))))"
        "list_all is_digit (take m3 (drop n3 (drop m2 (drop n2 (drop m1 (drop n1 (drop k line)))))))"
    by blast
  have pos: "a1 = k + n1" "b1 = k + n1 + m1" "a2 = k + n1 + m1 + n2" "b2 = k + n1 + m1 + n2 + m2"
      "a3 = k + n1 + m1 + n2 + m2 + n3" "b3 = k + n1 + m1 + n2 + m2 + n3 + m3"
    using c1 c2 c3 by simp_all
  have A: "a = take m1 (drop n1 (drop k line))"
    by (simp add: sl(1) pos slice_def ac_simps)
  have F: "f = take m2 (drop n2 (drop m1 (drop n1 (drop k line))))"
    by (simp add: sl(2) pos slice_def ac_simps)
  have D: "d = take m3 (drop n3 (drop m2 (drop n2 (drop m1 (drop n1 (drop k line))))))"
    by (simp add: sl(3) pos slice_def ac_simps)
  have "d \<noteq> []"
    unfolding D using s3(1,2) by (metis One_nat_def Suc_le_eq length_0_conv less_le_trans not_less0 take_eq_Nil)
  then show ?thesis using s1 s2 s3(3) A F D by simp
qed

end
